theory Spec2Isabelle
  imports Main "HOL-Library.AList"
begin

section \<open>Values, documents and responses\<close>

text \<open>
  An ObjectId is an opaque, system-assigned identifier. A route parameter \<open>:id\<close> is a
  string: either Mongoose can cast it to an ObjectId (\<open>GoodId\<close>) or the cast raises a
  CastError (\<open>BadId\<close>), which every handler's \<open>catch\<close> turns into a 500 response.
\<close>

type_synonym object_id = nat

datatype id_param = BadId string | GoodId object_id

text \<open>
  A parsed JSON request body is an object: the list of its own keys with their values.
  \<open>VNum n\<close> is a number whose value is the integer \<open>n\<close>, \<open>VObj\<close> a nested object and
  \<open>VOther\<close> an array. \<open>VOid\<close> is an ObjectId value (the server writes one into
  \<open>taskData.createdBy\<close>) and, under a key whose path is an ObjectId, a string that casts
  to one. A string is the list of the units that JavaScript's \<open>length\<close> counts; a
  \<open>char\<close> is one of the 256 units of Latin-1, and the strings of the model are those
  made of them.
\<close>

datatype jsval =
    VNull | VBool bool | VNum int | VStr string | VOid object_id
  | VObj "(string \<times> jsval) list" | VOther

type_synonym jsobject = "(string \<times> jsval) list"

datatype digest = Digest (salt: string) (hashed: string)

record user =
  user_id :: object_id
  name :: string
  email :: string
  password :: digest
  role :: string

text \<open>The Task schema of models/Task.js; \<open>dueDate\<close> is a time in milliseconds.\<close>

record task =
  task_id :: object_id
  title :: string
  description :: string
  status :: string
  priority :: string
  dueDate :: "int option"
  createdBy :: object_id

datatype joi_error =
    Required string
  | NotAString string
  | EmptyString string
  | TooShort string nat
  | TooLong string nat
  | NotOneOf string "string list"
  | NotAnEmail string
  | NotADate string
  | NotAllowed string

record principal_view =
  pv_id :: object_id
  pv_name :: string
  pv_email :: string
  pv_role :: string

text \<open>
  A response is \<open>res.status(n).json(...)\<close>. The JSON is \<open>{status: 'error', message}\<close>
  (\<open>Failure\<close>; \<open>Rejected\<close> when the message is the first Joi error; \<open>Refused\<close> when
  it is the generic message of a failure of the authentication subsystem) or
  \<open>{status: 'success', message?, data?}\<close> (\<open>Success\<close>). The data are a task document
  with its \<open>createdBy\<close> populated by the creator's name and email, a user document, or
  the view of a principal that the authentication routes send, with a token or without.
\<close>

datatype data =
    TaskData task "(string \<times> string) option"
  | UserData user
  | AuthData principal_view "string option"

datatype auth_error = DuplicateIdentity | InvalidCredentials | Unauthenticated | Forbidden

datatype payload =
    Failure string
  | Rejected joi_error
  | Refused auth_error
  | Success "string option" "data option"

record response =
  http_status :: nat
  body :: payload

datatype db_error = CastError string | ValidationError string

section \<open>Request validation (middleware/validation.js)\<close>

text \<open>
  \<open>schema.validate(req.body)\<close> stops at the first error. The keys of the schema are
  checked in the order they are written, then the keys the schema does not know.
\<close>

fun first_error :: "joi_error option list \<Rightarrow> joi_error option" where
  "first_error [] = None"
| "first_error (None # cs) = first_error cs"
| "first_error (Some e # cs) = Some e"

text \<open>
  Joi validates a shallow copy of the body, which it fills with \<open>Object.assign\<close>. The
  assignment of an own key \<open>__proto__\<close> (JSON admits one) does not create the key: it
  makes the value, when that is an object, the prototype of the copy. So the value
  that Joi reads under a key of the schema is the body's own, or else the one of the
  object under \<open>__proto__\<close>; the handlers read \<open>req.body\<close>, where only own keys count.
\<close>

definition joi_get :: "jsobject \<Rightarrow> string \<Rightarrow> jsval option" where
  "joi_get b k =
     (case map_of b k of
        Some v \<Rightarrow> Some v
      | None \<Rightarrow> (case map_of b ''__proto__'' of Some (VObj p) \<Rightarrow> map_of p k | other \<Rightarrow> None))"

text \<open>\<open>Joi.string().min(lo).max(hi)\<close>, required or optional; no bound is \<open>None\<close>.\<close>

fun joi_string :: "string \<Rightarrow> nat option \<Rightarrow> nat option \<Rightarrow> bool \<Rightarrow> jsval option \<Rightarrow> joi_error option" where
  "joi_string k lo hi req None = (if req then Some (Required k) else None)"
| "joi_string k lo hi req (Some (VStr s)) =
     (if s = [] then Some (EmptyString k)
      else if (case lo of None \<Rightarrow> False | Some n \<Rightarrow> length s < n) then Some (TooShort k (the lo))
      else if (case hi of None \<Rightarrow> False | Some n \<Rightarrow> n < length s) then Some (TooLong k (the hi))
      else None)"
| "joi_string k lo hi req (Some v) = Some (NotAString k)"

text \<open>\<open>Joi.string().valid(...).optional()\<close>.\<close>

fun joi_valid :: "string \<Rightarrow> string list \<Rightarrow> jsval option \<Rightarrow> joi_error option" where
  "joi_valid k allowed None = None"
| "joi_valid k allowed (Some (VStr s)) = (if s \<in> set allowed then None else Some (NotOneOf k allowed))"
| "joi_valid k allowed (Some v) = Some (NotOneOf k allowed)"

text \<open>
  Two libraries read a date string, each by its own rule. \<open>Joi.date()\<close> accepts the
  strings that its parser reads, the digits of a timestamp among them. The middleware
  drops the date that Joi made of the string: \<open>req.body\<close> keeps the string, and Mongoose
  casts it again, by a rule that accepts other strings. Both rules are the libraries'
  and are parameters: \<open>joi_accepts\<close> tells whether Joi reads a string as a date,
  \<open>mongoose_casts\<close> gives the time that Mongoose casts it to, if it does.
\<close>

record dates =
  joi_accepts :: "string \<Rightarrow> bool"
  mongoose_casts :: "string \<Rightarrow> int option"

text \<open>
  \<open>Joi.date().optional()\<close>: a number within the range of a JavaScript Date, or a string
  that Joi reads as a date.
\<close>

fun joi_date :: "dates \<Rightarrow> string \<Rightarrow> jsval option \<Rightarrow> joi_error option" where
  "joi_date dp k None = None"
| "joi_date dp k (Some (VStr s)) = (if joi_accepts dp s then None else Some (NotADate k))"
| "joi_date dp k (Some (VNum n)) = (if abs n \<le> 8640000000000000 then None else Some (NotADate k))"
| "joi_date dp k (Some v) = Some (NotADate k)"

text \<open>
  An own key that the schema does not know is an error; the key \<open>__proto__\<close> is not
  among the keys of the copy that Joi validates.
\<close>

definition unknown_key :: "string list \<Rightarrow> jsobject \<Rightarrow> joi_error option" where
  "unknown_key known b =
     (case filter (\<lambda>k. k \<notin> set known \<and> k \<noteq> ''__proto__'') (map fst b) of
        [] \<Rightarrow> None
      | k # ks \<Rightarrow> Some (NotAllowed k))"

definition task_keys :: "string list" where
  "task_keys = [''title'', ''description'', ''status'', ''priority'', ''dueDate'']"

definition status_values :: "string list" where
  "status_values = [''pending'', ''in-progress'', ''completed'']"

definition priority_values :: "string list" where
  "priority_values = [''low'', ''medium'', ''high'']"

definition bad_request :: "joi_error \<Rightarrow> response" where
  "bad_request e = \<lparr>http_status = 400, body = Rejected e\<rparr>"

text \<open>
  Each middleware answers 400 (\<open>Some\<close> response) or calls \<open>next()\<close> (\<open>None\<close>).
\<close>

definition validateTask :: "dates \<Rightarrow> jsobject \<Rightarrow> response option" where
  "validateTask dp b =
     map_option bad_request (first_error
       [joi_string ''title'' (Some 1) (Some 100) True (joi_get b ''title''),
        joi_string ''description'' (Some 1) (Some 500) True (joi_get b ''description''),
        joi_valid ''status'' status_values (joi_get b ''status''),
        joi_valid ''priority'' priority_values (joi_get b ''priority''),
        joi_date dp ''dueDate'' (joi_get b ''dueDate''),
        unknown_key task_keys b])"

definition validateTaskUpdate :: "dates \<Rightarrow> jsobject \<Rightarrow> response option" where
  "validateTaskUpdate dp b =
     map_option bad_request (first_error
       [joi_string ''title'' (Some 1) (Some 100) False (joi_get b ''title''),
        joi_string ''description'' (Some 1) (Some 500) False (joi_get b ''description''),
        joi_valid ''status'' status_values (joi_get b ''status''),
        joi_valid ''priority'' priority_values (joi_get b ''priority''),
        joi_date dp ''dueDate'' (joi_get b ''dueDate''),
        unknown_key task_keys b])"

section \<open>The Task model (models/Task.js) and the Mongoose calls the routes make\<close>

text \<open>
  The collection is the list of its documents in insertion order. Timestamps are left
  out: no route studied here reads them. A call that raises (a cast or a schema
  validator fails) returns \<open>Inl\<close>; loss of the database connection is not modelled.
\<close>

definition and_then :: "'e + 'a \<Rightarrow> ('a \<Rightarrow> 'e + 'b) \<Rightarrow> 'e + 'b" where
  "and_then r f = (case r of Inl e \<Rightarrow> Inl e | Inr x \<Rightarrow> f x)"

text \<open>
  The white space and the line terminators of JavaScript among the units of Latin-1:
  tab, line feed, vertical tab, form feed, carriage return, space and the no-break
  space U+00A0.
\<close>

definition is_space :: "char \<Rightarrow> bool" where
  "is_space c = (c \<in> set [CHR '' '', CHR 0x09, CHR 0x0A, CHR 0x0B, CHR 0x0C, CHR 0x0D, CHR 0xA0])"

text \<open>
  \<open>trim: true\<close>: the setter is \<open>String.prototype.trim\<close>, which removes leading and
  trailing white space and line terminators.
\<close>

definition trim :: "string \<Rightarrow> string" where
  "trim s = rev (dropWhile is_space (rev (dropWhile is_space s)))"

text \<open>The decimal digits of a number, as \<open>toString\<close> writes an integer.\<close>

definition digit_char :: "int \<Rightarrow> char" where
  "digit_char d = ''0123456789'' ! nat d"

function digits :: "int \<Rightarrow> string" where
  "digits n = (if n < 10 then [digit_char n] else digits (n div 10) @ [digit_char (n mod 10)])"
  by pat_completeness auto

termination
  by (relation "measure nat") auto

declare digits.simps [simp del]

definition number_string :: "int \<Rightarrow> string" where
  "number_string n = (if n < 0 then CHR ''-'' # digits (- n) else digits n)"

text \<open>
  The cast of a value to a String path: a string is itself, a number and a boolean are
  what \<open>toString\<close> writes, an object stands for its \<open>_id\<close> when that is a non-empty
  string, and nothing else is cast (\<open>None\<close>: a CastError). The routes pass strings only,
  which is all that the validation middleware admits under these paths.
\<close>

fun cast_string :: "jsval \<Rightarrow> string option" where
  "cast_string (VStr s) = Some s"
| "cast_string (VNum n) = Some (number_string n)"
| "cast_string (VBool b) = Some (if b then ''true'' else ''false'')"
| "cast_string (VObj p) =
     (case map_of p ''_id'' of Some (VStr s) \<Rightarrow> (if s = [] then None else Some s) | other \<Rightarrow> None)"
| "cast_string v = None"

text \<open>
  A String path with \<open>required\<close>, \<open>trim\<close> and \<open>maxlength\<close>: the value is cast, the
  setter trims it, and the trimmed string must be non-empty and within the bound.
  \<open>null\<close> is not cast and fails \<open>required\<close>.
\<close>

fun cast_text :: "string \<Rightarrow> nat \<Rightarrow> jsval \<Rightarrow> db_error + string" where
  "cast_text p mx VNull = Inl (ValidationError p)"
| "cast_text p mx v =
     (case cast_string v of
        None \<Rightarrow> Inl (CastError p)
      | Some s \<Rightarrow>
          if trim s = [] \<or> mx < length (trim s) then Inl (ValidationError p) else Inr (trim s))"

text \<open>
  A String path with \<open>enum\<close>: the cast string must be one of the values. (Mongoose
  stores a \<open>null\<close> as it is; no route passes one, and it is sent to the failure branch.)
\<close>

fun cast_enum :: "string \<Rightarrow> string list \<Rightarrow> jsval \<Rightarrow> db_error + string" where
  "cast_enum p allowed v =
     (case cast_string v of
        None \<Rightarrow> Inl (CastError p)
      | Some s \<Rightarrow> if s \<in> set allowed then Inr s else Inl (ValidationError p))"

text \<open>
  A Date path: \<open>null\<close> and the empty string are no date, a number is the time it
  counts when it is within the range of a Date, and a string is what Mongoose casts it
  to.
\<close>

fun cast_date :: "dates \<Rightarrow> jsval \<Rightarrow> db_error + int option" where
  "cast_date dp (VStr s) =
     (if s = [] then Inr None
      else case mongoose_casts dp s of
             None \<Rightarrow> Inl (CastError ''dueDate'')
           | Some d \<Rightarrow> Inr (Some d))"
| "cast_date dp (VNum n) = (if abs n \<le> 8640000000000000 then Inr (Some n) else Inl (CastError ''dueDate''))"
| "cast_date dp VNull = Inr None"
| "cast_date dp v = Inl (CastError ''dueDate'')"

text \<open>
  An ObjectId path: an ObjectId is itself, and \<open>null\<close> fails \<open>required\<close>. The one such
  path is \<open>createdBy\<close>, under which the routes pass the caller's id and nothing else;
  every other value is sent to the failure branch.
\<close>

fun cast_oid :: "string \<Rightarrow> jsval \<Rightarrow> db_error + object_id" where
  "cast_oid p (VOid i) = Inr i"
| "cast_oid p VNull = Inl (ValidationError p)"
| "cast_oid p v = Inl (CastError p)"

definition required :: "string \<Rightarrow> (jsval \<Rightarrow> db_error + 'a) \<Rightarrow> jsval option \<Rightarrow> db_error + 'a" where
  "required p f v = (case v of None \<Rightarrow> Inl (ValidationError p) | Some x \<Rightarrow> f x)"

definition with_default :: "'a \<Rightarrow> (jsval \<Rightarrow> db_error + 'a) \<Rightarrow> jsval option \<Rightarrow> db_error + 'a" where
  "with_default d f v = (case v of None \<Rightarrow> Inr d | Some x \<Rightarrow> f x)"

definition optional :: "(jsval \<Rightarrow> db_error + 'a) \<Rightarrow> jsval option \<Rightarrow> db_error + 'a option" where
  "optional f v = (case v of None \<Rightarrow> Inr None | Some x \<Rightarrow> and_then (f x) (\<lambda>y. Inr (Some y)))"

text \<open>The identifier the database assigns to a new document: one not in use.\<close>

definition new_id :: "object_id list \<Rightarrow> object_id" where
  "new_id ids = Suc (fold max ids 0)"

text \<open>
  \<open>Task.create(taskData)\<close>: casts and validates the paths of the schema (keys the schema
  does not declare are dropped), fills the defaults and inserts the document under a
  new id. The validation middleware admits no \<open>_id\<close> key, so the id is never the
  caller's.
\<close>

definition Task_create :: "dates \<Rightarrow> jsobject \<Rightarrow> task list \<Rightarrow> db_error + (task \<times> task list)" where
  "Task_create dp d ts =
     and_then (required ''title'' (cast_text ''title'' 100) (map_of d ''title'')) (\<lambda>ti.
     and_then (required ''description'' (cast_text ''description'' 500) (map_of d ''description'')) (\<lambda>de.
     and_then (with_default ''pending'' (cast_enum ''status'' status_values) (map_of d ''status'')) (\<lambda>st.
     and_then (with_default ''medium'' (cast_enum ''priority'' priority_values) (map_of d ''priority'')) (\<lambda>pr.
     and_then (with_default None (cast_date dp) (map_of d ''dueDate'')) (\<lambda>du.
     and_then (required ''createdBy'' (cast_oid ''createdBy'') (map_of d ''createdBy'')) (\<lambda>cb.
       let t = \<lparr>task_id = new_id (map task_id ts), title = ti, description = de, status = st,
                priority = pr, dueDate = du, createdBy = cb\<rparr>
       in Inr (t, ts @ [t])))))))"

text \<open>
  The query of the three \<open>/:id\<close> routes: \<open>{_id: req.params.id}\<close>, with
  \<open>createdBy: req.user._id\<close> added unless the caller's role is \<open>admin\<close>.
\<close>

record query =
  q_id :: id_param
  q_createdBy :: "object_id option"

definition task_query :: "user \<Rightarrow> id_param \<Rightarrow> query" where
  "task_query u pid =
     \<lparr>q_id = pid, q_createdBy = (if role u \<noteq> ''admin'' then Some (user_id u) else None)\<rparr>"

definition matches :: "object_id \<Rightarrow> object_id option \<Rightarrow> task \<Rightarrow> bool" where
  "matches i owner t = (task_id t = i \<and> (case owner of None \<Rightarrow> True | Some v \<Rightarrow> createdBy t = v))"


text \<open>The update document after casting: the paths it sets.\<close>

record task_update =
  set_title :: "string option"
  set_description :: "string option"
  set_status :: "string option"
  set_priority :: "string option"
  set_dueDate :: "int option option"
  set_createdBy :: "object_id option"

definition cast_update :: "dates \<Rightarrow> jsobject \<Rightarrow> db_error + task_update" where
  "cast_update dp b =
     and_then (optional (cast_text ''title'' 100) (map_of b ''title'')) (\<lambda>ti.
     and_then (optional (cast_text ''description'' 500) (map_of b ''description'')) (\<lambda>de.
     and_then (optional (cast_enum ''status'' status_values) (map_of b ''status'')) (\<lambda>st.
     and_then (optional (cast_enum ''priority'' priority_values) (map_of b ''priority'')) (\<lambda>pr.
     and_then (optional (cast_date dp) (map_of b ''dueDate'')) (\<lambda>du.
     and_then (optional (cast_oid ''createdBy'') (map_of b ''createdBy'')) (\<lambda>cb.
       Inr \<lparr>set_title = ti, set_description = de, set_status = st, set_priority = pr,
            set_dueDate = du, set_createdBy = cb\<rparr>))))))"

definition apply_update :: "task_update \<Rightarrow> task \<Rightarrow> task" where
  "apply_update up t =
     t\<lparr>title := (case set_title up of None \<Rightarrow> title t | Some v \<Rightarrow> v),
       description := (case set_description up of None \<Rightarrow> description t | Some v \<Rightarrow> v),
       status := (case set_status up of None \<Rightarrow> status t | Some v \<Rightarrow> v),
       priority := (case set_priority up of None \<Rightarrow> priority t | Some v \<Rightarrow> v),
       dueDate := (case set_dueDate up of None \<Rightarrow> dueDate t | Some v \<Rightarrow> v),
       createdBy := (case set_createdBy up of None \<Rightarrow> createdBy t | Some v \<Rightarrow> v)\<rparr>"

text \<open>The first document that satisfies \<open>P\<close> is replaced, or removed; it is returned.\<close>

fun update_first :: "('a \<Rightarrow> bool) \<Rightarrow> ('a \<Rightarrow> 'a) \<Rightarrow> 'a list \<Rightarrow> 'a option \<times> 'a list" where
  "update_first P f [] = (None, [])"
| "update_first P f (x # xs) =
     (if P x then (Some (f x), f x # xs)
      else (fst (update_first P f xs), x # snd (update_first P f xs)))"

fun remove_first :: "('a \<Rightarrow> bool) \<Rightarrow> 'a list \<Rightarrow> 'a option \<times> 'a list" where
  "remove_first P [] = (None, [])"
| "remove_first P (x # xs) =
     (if P x then (Some x, xs)
      else (fst (remove_first P xs), x # snd (remove_first P xs)))"

text \<open>
  \<open>Task.findOneAndUpdate(query, req.body, {new: true, runValidators: true})\<close>: the
  update is cast and validated before the collection is searched; the updated
  document is returned.
\<close>

definition Task_findOneAndUpdate ::
  "dates \<Rightarrow> query \<Rightarrow> jsobject \<Rightarrow> task list \<Rightarrow> db_error + (task option \<times> task list)" where
  "Task_findOneAndUpdate dp q b ts =
     (case q_id q of
        BadId s \<Rightarrow> Inl (CastError ''_id'')
      | GoodId i \<Rightarrow>
          and_then (cast_update dp b) (\<lambda>up.
            Inr (update_first (matches i (q_createdBy q)) (apply_update up) ts)))"

definition Task_findOneAndDelete :: "query \<Rightarrow> task list \<Rightarrow> db_error + (task option \<times> task list)" where
  "Task_findOneAndDelete q ts =
     (case q_id q of
        BadId s \<Rightarrow> Inl (CastError ''_id'')
      | GoodId i \<Rightarrow> Inr (remove_first (matches i (q_createdBy q)) ts))"

text \<open>\<open>populate('createdBy', 'name email')\<close>; \<open>None\<close> when the creator is gone.\<close>

definition populate :: "user list \<Rightarrow> task \<Rightarrow> (string \<times> string) option" where
  "populate us t = map_option (\<lambda>u. (name u, email u)) (find (\<lambda>u. user_id u = createdBy t) us)"

section \<open>The task routes (routes/tasks.js)\<close>

text \<open>
  Every route runs after \<open>protect\<close>, which has put the caller's document in
  \<open>req.user\<close>: the handlers take it as \<open>u\<close>. A handler returns its response and the
  collection as it leaves it.
\<close>

definition server_error :: response where
  "server_error = \<lparr>http_status = 500, body = Failure ''Server error''\<rparr>"

definition task_not_found :: response where
  "task_not_found = \<lparr>http_status = 404, body = Failure ''Task not found''\<rparr>"

definition task_response :: "nat \<Rightarrow> string option \<Rightarrow> user list \<Rightarrow> task \<Rightarrow> response" where
  "task_response n msg us t =
     \<lparr>http_status = n, body = Success msg (Some (TaskData t (populate us t)))\<rparr>"


text \<open>\<open>taskData = {...req.body, createdBy: req.user._id}\<close>.\<close>

definition taskData :: "user \<Rightarrow> jsobject \<Rightarrow> jsobject" where
  "taskData u b = AList.update ''createdBy'' (VOid (user_id u)) b"

definition post_handler ::
  "dates \<Rightarrow> user \<Rightarrow> jsobject \<Rightarrow> task list \<Rightarrow> user list \<Rightarrow> response \<times> task list" where
  "post_handler dp u b ts us =
     (case Task_create dp (taskData u b) ts of
        Inl e \<Rightarrow> (server_error, ts)
      | Inr (t, ts') \<Rightarrow> (task_response 201 (Some ''Task created successfully'') us t, ts'))"

definition router_post ::
  "dates \<Rightarrow> user \<Rightarrow> jsobject \<Rightarrow> task list \<Rightarrow> user list \<Rightarrow> response \<times> task list" where
  "router_post dp u b ts us =
     (case validateTask dp b of
        Some r \<Rightarrow> (r, ts)
      | None \<Rightarrow> post_handler dp u b ts us)"

definition put_handler ::
  "dates \<Rightarrow> user \<Rightarrow> id_param \<Rightarrow> jsobject \<Rightarrow> task list \<Rightarrow> user list \<Rightarrow> response \<times> task list" where
  "put_handler dp u pid b ts us =
     (case Task_findOneAndUpdate dp (task_query u pid) b ts of
        Inl e \<Rightarrow> (server_error, ts)
      | Inr (None, ts') \<Rightarrow> (task_not_found, ts')
      | Inr (Some t, ts') \<Rightarrow> (task_response 200 (Some ''Task updated successfully'') us t, ts'))"

definition router_put_id ::
  "dates \<Rightarrow> user \<Rightarrow> id_param \<Rightarrow> jsobject \<Rightarrow> task list \<Rightarrow> user list \<Rightarrow> response \<times> task list" where
  "router_put_id dp u pid b ts us =
     (case validateTaskUpdate dp b of
        Some r \<Rightarrow> (r, ts)
      | None \<Rightarrow> put_handler dp u pid b ts us)"

definition task_deleted :: response where
  "task_deleted = \<lparr>http_status = 200, body = Success (Some ''Task deleted successfully'') None\<rparr>"

definition router_delete_id :: "user \<Rightarrow> id_param \<Rightarrow> task list \<Rightarrow> response \<times> task list" where
  "router_delete_id u pid ts =
     (case Task_findOneAndDelete (task_query u pid) ts of
        Inl e \<Rightarrow> (server_error, ts)
      | Inr (None, ts') \<Rightarrow> (task_not_found, ts')
      | Inr (Some t, ts') \<Rightarrow> (task_deleted, ts'))"

section \<open>The role update (routes/users.js)\<close>

text \<open>
  The users router runs \<open>protect\<close> and \<open>restrictTo('admin')\<close> before every handler; the
  handler below is what runs once both have passed.
\<close>

text \<open>\<open>User.findByIdAndUpdate(req.params.id, {role}, {new: true, runValidators: true})\<close>.\<close>

definition User_findByIdAndUpdate :: "id_param \<Rightarrow> string \<Rightarrow> user list \<Rightarrow> db_error + (user option \<times> user list)" where
  "User_findByIdAndUpdate pid r us =
     (case pid of
        BadId s \<Rightarrow> Inl (CastError ''_id'')
      | GoodId i \<Rightarrow> Inr (update_first (\<lambda>u. user_id u = i) (\<lambda>u. u\<lparr>role := r\<rparr>) us))"

definition invalid_role :: response where
  \<open>invalid_role =
     \<lparr>http_status = 400, body = Failure ''Invalid role. Must be either "user" or "admin"''\<rparr>\<close>

definition user_not_found :: response where
  "user_not_found = \<lparr>http_status = 404, body = Failure ''User not found''\<rparr>"

definition role_updated :: "user \<Rightarrow> response" where
  "role_updated u =
     \<lparr>http_status = 200,
      body = Success (Some ''User role updated successfully'') (Some (UserData u))\<rparr>"

text \<open>
  \<open>role\<close> is \<open>req.body.role\<close>, of any type or absent; \<open>['user', 'admin'].includes(role)\<close>
  holds for the two strings only. The role is checked before the collection is read.
\<close>

definition router_patch_id_role :: "id_param \<Rightarrow> jsobject \<Rightarrow> user list \<Rightarrow> response \<times> user list" where
  "router_patch_id_role pid b us =
     (case map_of b ''role'' of
        Some (VStr r) \<Rightarrow>
          (if r \<notin> set [''user'', ''admin''] then (invalid_role, us)
           else (case User_findByIdAndUpdate pid r us of
                   Inl e \<Rightarrow> (server_error, us)
                 | Inr (None, us') \<Rightarrow> (user_not_found, us')
                 | Inr (Some u, us') \<Rightarrow> (role_updated u, us')))
      | other \<Rightarrow> (invalid_role, us))"

section \<open>Validation of the credentials (middleware/validation.js)\<close>

text \<open>\<open>Joi.string().email().required()\<close>; the email syntax check \<open>em\<close> is the library's.\<close>

fun joi_email :: "(string \<Rightarrow> bool) \<Rightarrow> string \<Rightarrow> jsval option \<Rightarrow> joi_error option" where
  "joi_email em k None = Some (Required k)"
| "joi_email em k (Some (VStr s)) =
     (if s = [] then Some (EmptyString k) else if em s then None else Some (NotAnEmail k))"
| "joi_email em k (Some v) = Some (NotAString k)"

definition validateRegister :: "(string \<Rightarrow> bool) \<Rightarrow> jsobject \<Rightarrow> response option" where
  "validateRegister em b =
     map_option bad_request (first_error
       [joi_string ''name'' (Some 2) (Some 50) True (joi_get b ''name''),
        joi_email em ''email'' (joi_get b ''email''),
        joi_string ''password'' (Some 6) None True (joi_get b ''password''),
        joi_valid ''role'' [''user'', ''admin''] (joi_get b ''role''),
        unknown_key [''name'', ''email'', ''password'', ''role''] b])"

definition validateLogin :: "(string \<Rightarrow> bool) \<Rightarrow> jsobject \<Rightarrow> response option" where
  "validateLogin em b =
     map_option bad_request (first_error
       [joi_email em ''email'' (joi_get b ''email''),
        joi_string ''password'' None None True (joi_get b ''password''),
        unknown_key [''email'', ''password''] b])"

text \<open>
  The body of a registration, which holds a name, an email and a password, with a role
  or without, and the body of a login.
\<close>

definition registration_body :: "string \<Rightarrow> string \<Rightarrow> string \<Rightarrow> string option \<Rightarrow> jsobject" where
  "registration_body n e p r =
     [(''name'', VStr n), (''email'', VStr e), (''password'', VStr p)]
       @ (case r of None \<Rightarrow> [] | Some x \<Rightarrow> [(''role'', VStr x)])"

definition login_body :: "string \<Rightarrow> string \<Rightarrow> jsobject" where
  "login_body e p = [(''email'', VStr e), (''password'', VStr p)]"

section \<open>Credentials, tokens and the authentication gate\<close>

text \<open>
  models/User.js, routes/auth.js and middleware/auth.js are not among the sources. The
  definitions of this section follow the specification of the components they
  implement. The hash function \<open>kdf\<close> (salt, plaintext) and the token library, which
  signs, encodes and decodes, are parameters.
\<close>

datatype token_error = TokenMalformed | TokenSignatureInvalid | TokenExpired

text \<open>
  Modelled from the spec: \<open>hash\<close> of the Password Hasher (4.2); models/User.js, which
  calls it, is missing. The fresh salt of the call is an argument, and the digest
  holds it.
\<close>

definition hasher_hash :: "(string \<Rightarrow> string \<Rightarrow> string) \<Rightarrow> string \<Rightarrow> string \<Rightarrow> digest" where
  "hasher_hash kdf s p = Digest s (kdf s p)"

text \<open>
  Modelled from the spec: \<open>verify\<close> of the Password Hasher (4.2), missing with
  models/User.js: the plaintext is hashed again under the salt of the digest and the
  results are compared; a mismatch is \<open>False\<close>.
\<close>

definition hasher_verify :: "(string \<Rightarrow> string \<Rightarrow> string) \<Rightarrow> string \<Rightarrow> digest \<Rightarrow> bool" where
  "hasher_verify kdf p d = (kdf (salt d) p = hashed d)"

text \<open>
  The claims of a token (3), and the three functions of a token library: the signature
  of the claims under a key, the token that holds claims and a signature, and the
  reading of a token, which fails on a string that is none.
\<close>

record claims =
  sub :: object_id
  iat :: nat
  exp :: nat

record codec =
  signer :: "string \<Rightarrow> claims \<Rightarrow> string"
  encoder :: "claims \<Rightarrow> string \<Rightarrow> string"
  decoder :: "string \<Rightarrow> (claims \<times> string) option"

text \<open>
  A codec in unary: the three claims, each closed by a dot, then the signature. It
  shows that a token library exists, and it serves the examples.
\<close>

definition unary :: "nat \<Rightarrow> string" where
  "unary n = replicate n (CHR ''1'')"

fun field :: "string \<Rightarrow> (nat \<times> string) option" where
  "field [] = None"
| "field (c # cs) =
     (if c = CHR ''.'' then Some (0, cs)
      else if c = CHR ''1'' then map_option (\<lambda>(n, r). (Suc n, r)) (field cs)
      else None)"

definition sample_encode :: "claims \<Rightarrow> string \<Rightarrow> string" where
  "sample_encode c sg = unary (sub c) @ ''.'' @ unary (iat c) @ ''.'' @ unary (exp c) @ ''.'' @ sg"

definition sample_decode :: "string \<Rightarrow> (claims \<times> string) option" where
  "sample_decode t =
     (case field t of
        None \<Rightarrow> None
      | Some (a, t1) \<Rightarrow>
          (case field t1 of
             None \<Rightarrow> None
           | Some (b, t2) \<Rightarrow>
               (case field t2 of
                  None \<Rightarrow> None
                | Some (c, sg) \<Rightarrow> Some (\<lparr>sub = a, iat = b, exp = c\<rparr>, sg))))"

definition sample_codec :: codec where
  "sample_codec = \<lparr>signer = (\<lambda>k c. k @ unary (sub c)), encoder = sample_encode, decoder = sample_decode\<rparr>"

text \<open>
  Modelled from the spec: the library of the Token Service (4.3), missing with
  routes/auth.js and middleware/auth.js. A token encodes its claims: a token library is
  a codec that reads a token it has written, so that the claims and the signature that
  went into it come out of it.
\<close>

typedef token_lib = "{L :: codec. \<forall>c sg. decoder L (encoder L c sg) = Some (c, sg)}"
proof -
  have f: "field (unary n @ CHR ''.'' # r) = Some (n, r)" for n r
    by (induction n) (simp_all add: unary_def)
  have "decoder sample_codec (encoder sample_codec c sg) = Some (c, sg)" for c sg
    by (simp add: sample_codec_def sample_decode_def sample_encode_def f)
  then show ?thesis by blast
qed

setup_lifting type_definition_token_lib

text \<open>The three functions of a token library, and the library in unary.\<close>

lift_definition sign :: "token_lib \<Rightarrow> string \<Rightarrow> claims \<Rightarrow> string" is signer .

lift_definition encode :: "token_lib \<Rightarrow> claims \<Rightarrow> string \<Rightarrow> string" is encoder .

lift_definition decode :: "token_lib \<Rightarrow> string \<Rightarrow> (claims \<times> string) option" is decoder .

lift_definition sample_lib :: token_lib is sample_codec
proof -
  have f: "field (unary n @ CHR ''.'' # r) = Some (n, r)" for n r
    by (induction n) (simp_all add: unary_def)
  fix c sg
  show "decoder sample_codec (encoder sample_codec c sg) = Some (c, sg)"
    by (simp add: sample_codec_def sample_decode_def sample_encode_def f)
qed

text \<open>
  Modelled from the spec: \<open>issue\<close> of the Token Service (4.3), missing with
  routes/auth.js: the signed token of \<open>{sub: principalId, iat: now, exp: now + ttl}\<close>.
\<close>

definition token_issue :: "token_lib \<Rightarrow> string \<Rightarrow> nat \<Rightarrow> object_id \<Rightarrow> nat \<Rightarrow> string" where
  "token_issue L key now pid ttl =
     (let c = \<lparr>sub = pid, iat = now, exp = now + ttl\<rparr> in encode L c (sign L key c))"

text \<open>
  Modelled from the spec: \<open>verify\<close> of the Token Service (4.3), missing with
  middleware/auth.js: \<open>TokenMalformed\<close> for a string that does not decode,
  \<open>TokenSignatureInvalid\<close> for a signature that is not the secret's, \<open>TokenExpired\<close> when
  \<open>exp\<close> has passed, and the subject otherwise.
\<close>

definition token_verify :: "token_lib \<Rightarrow> string \<Rightarrow> nat \<Rightarrow> string \<Rightarrow> token_error + object_id" where
  "token_verify L key now tok =
     (case decode L tok of
        None \<Rightarrow> Inl TokenMalformed
      | Some (c, sg) \<Rightarrow>
          if sg \<noteq> sign L key c then Inl TokenSignatureInvalid
          else if exp c < now then Inl TokenExpired
          else Inr (sub c))"

text \<open>
  The capital letters of Latin-1 and, in the same order, their small letters: A to Z,
  then U+00C0 to U+00DE without the multiplication sign U+00D7. No other unit of
  Latin-1 is the capital of another.
\<close>

definition capitals :: string where
  "capitals = ''ABCDEFGHIJKLMNOPQRSTUVWXYZ'' @
     [CHR 0xC0, CHR 0xC1, CHR 0xC2, CHR 0xC3, CHR 0xC4, CHR 0xC5, CHR 0xC6, CHR 0xC7,
      CHR 0xC8, CHR 0xC9, CHR 0xCA, CHR 0xCB, CHR 0xCC, CHR 0xCD, CHR 0xCE, CHR 0xCF,
      CHR 0xD0, CHR 0xD1, CHR 0xD2, CHR 0xD3, CHR 0xD4, CHR 0xD5, CHR 0xD6,
      CHR 0xD8, CHR 0xD9, CHR 0xDA, CHR 0xDB, CHR 0xDC, CHR 0xDD, CHR 0xDE]"

definition smalls :: string where
  "smalls = ''abcdefghijklmnopqrstuvwxyz'' @
     [CHR 0xE0, CHR 0xE1, CHR 0xE2, CHR 0xE3, CHR 0xE4, CHR 0xE5, CHR 0xE6, CHR 0xE7,
      CHR 0xE8, CHR 0xE9, CHR 0xEA, CHR 0xEB, CHR 0xEC, CHR 0xED, CHR 0xEE, CHR 0xEF,
      CHR 0xF0, CHR 0xF1, CHR 0xF2, CHR 0xF3, CHR 0xF4, CHR 0xF5, CHR 0xF6,
      CHR 0xF8, CHR 0xF9, CHR 0xFA, CHR 0xFB, CHR 0xFC, CHR 0xFD, CHR 0xFE]"

text \<open>
  Modelled from the spec: the case-insensitive comparison of emails (3, 4.1), missing
  with models/User.js: two emails are the same when they are equal once every capital
  letter is replaced by its small letter.
\<close>

definition lower_char :: "char \<Rightarrow> char" where
  "lower_char c = (case map_of (zip capitals smalls) c of None \<Rightarrow> c | Some d \<Rightarrow> d)"

definition lower :: "string \<Rightarrow> string" where
  "lower s = map lower_char s"

text \<open>
  Modelled from the spec: \<open>findByEmail\<close> of the Credential Store (4.1), missing with
  models/User.js.
\<close>

definition findByEmail :: "string \<Rightarrow> user list \<Rightarrow> user option" where
  "findByEmail e us = find (\<lambda>u. lower (email u) = lower e) us"

text \<open>
  Modelled from the spec: \<open>findById\<close> of the Credential Store (4.1), missing with
  models/User.js.
\<close>

definition findById :: "object_id \<Rightarrow> user list \<Rightarrow> user option" where
  "findById i us = find (\<lambda>u. user_id u = i) us"

text \<open>
  Modelled from the spec: the role of a new principal (3, 4.1), which is the role
  given and \<open>user\<close> when none is given; models/User.js, which declares the default, is
  missing.
\<close>

definition role_or_default :: "string option \<Rightarrow> string" where
  "role_or_default r = (case r of None \<Rightarrow> ''user'' | Some x \<Rightarrow> x)"

text \<open>
  Modelled from the spec: \<open>register\<close> of the Credential Store (4.1), missing with
  routes/auth.js and models/User.js. It fails with \<open>DuplicateIdentity\<close> when the email
  is present; otherwise it stores a new principal with the digest of the password.
\<close>

definition register ::
  "(string \<Rightarrow> string \<Rightarrow> string) \<Rightarrow> string \<Rightarrow> string \<Rightarrow> string \<Rightarrow> string \<Rightarrow> string option \<Rightarrow> user list
     \<Rightarrow> auth_error + (user \<times> user list)" where
  "register kdf s n e p r us =
     (if findByEmail e us \<noteq> None then Inl DuplicateIdentity
      else
        let u = \<lparr>user_id = new_id (map user_id us), name = n, email = e,
                 password = hasher_hash kdf s p,
                 role = role_or_default r\<rparr>
        in Inr (u, us @ [u]))"

text \<open>
  Modelled from the spec: the status of each refusal at the HTTP boundary (6, 7),
  missing with routes/auth.js and middleware/auth.js.
\<close>

definition refusal_status :: "auth_error \<Rightarrow> nat" where
  "refusal_status e =
     (case e of DuplicateIdentity \<Rightarrow> 409 | InvalidCredentials \<Rightarrow> 401
              | Unauthenticated \<Rightarrow> 401 | Forbidden \<Rightarrow> 403)"

text \<open>
  Modelled from the spec: the answer of a refusal (6, 7): its status and the generic
  message of its kind, nothing of the internal failure.
\<close>

definition refusal :: "auth_error \<Rightarrow> response" where
  "refusal e = \<lparr>http_status = refusal_status e, body = Refused e\<rparr>"

text \<open>
  Modelled from the spec: the outward view of a principal (3), which leaves the digest
  out; models/User.js, which decides it, is missing.
\<close>

definition public_view :: "user \<Rightarrow> principal_view" where
  "public_view u = \<lparr>pv_id = user_id u, pv_name = name u, pv_email = email u, pv_role = role u\<rparr>"

text \<open>
  Modelled from the spec: the answer of a successful registration or login (6): the
  principal without its digest, and a token.
\<close>

definition auth_response :: "nat \<Rightarrow> user \<Rightarrow> string \<Rightarrow> response" where
  "auth_response n u tok =
     \<lparr>http_status = n, body = Success None (Some (AuthData (public_view u) (Some tok)))\<rparr>"

text \<open>
  The settings of the process: the libraries, the signing secret and the lifetime of a
  token, read once at startup. The clock and the salt drawn for a call are arguments
  of the routes.
\<close>

record env =
  kdf :: "string \<Rightarrow> string \<Rightarrow> string"
  lib :: token_lib
  is_email :: "string \<Rightarrow> bool"
  secret :: string
  ttl :: nat

text \<open>A field of a validated body: the string under a key, and the role if there is one.\<close>

definition the_string :: "jsval option \<Rightarrow> string" where
  "the_string v = (case v of Some (VStr s) \<Rightarrow> s | other \<Rightarrow> [])"

definition the_role :: "jsval option \<Rightarrow> string option" where
  "the_role v = (case v of Some (VStr s) \<Rightarrow> Some s | other \<Rightarrow> None)"

text \<open>
  Modelled from the spec: \<open>POST /auth/register\<close> (6), missing with routes/auth.js. Behind
  \<open>validateRegister\<close> it answers 201 with the principal and a token, or the refusal of
  \<open>register\<close>.
\<close>

definition auth_register :: "env \<Rightarrow> nat \<Rightarrow> string \<Rightarrow> jsobject \<Rightarrow> user list \<Rightarrow> response \<times> user list" where
  "auth_register E now s b us =
     (case validateRegister (is_email E) b of
        Some r \<Rightarrow> (r, us)
      | None \<Rightarrow>
          (case register (kdf E) s (the_string (map_of b ''name'')) (the_string (map_of b ''email''))
                  (the_string (map_of b ''password'')) (the_role (map_of b ''role'')) us of
             Inl e \<Rightarrow> (refusal e, us)
           | Inr (u, us') \<Rightarrow>
               (auth_response 201 u (token_issue (lib E) (secret E) now (user_id u) (ttl E)), us')))"

text \<open>
  Modelled from the spec: \<open>POST /auth/login\<close> (6), missing with routes/auth.js. Behind
  \<open>validateLogin\<close> it answers 200 with the principal and a token, and
  \<open>InvalidCredentials\<close> when the email is unknown and when the password does not verify.
\<close>

definition auth_login :: "env \<Rightarrow> nat \<Rightarrow> jsobject \<Rightarrow> user list \<Rightarrow> response" where
  "auth_login E now b us =
     (case validateLogin (is_email E) b of
        Some r \<Rightarrow> r
      | None \<Rightarrow>
          (case findByEmail (the_string (map_of b ''email'')) us of
             None \<Rightarrow> refusal InvalidCredentials
           | Some u \<Rightarrow>
               if \<not> hasher_verify (kdf E) (the_string (map_of b ''password'')) (password u)
               then refusal InvalidCredentials
               else auth_response 200 u (token_issue (lib E) (secret E) now (user_id u) (ttl E))))"

text \<open>The reason of a rejection at the gate, kept for the log and not sent.\<close>

datatype gate_reason = NoHeader | MalformedHeader | BadToken token_error | StalePrincipal

text \<open>
  Modelled from the spec: the extraction of the bearer token (4.4), missing with
  middleware/auth.js: the header must read \<open>Bearer <token>\<close>.
\<close>

definition bearer_token :: "string \<Rightarrow> string option" where
  "bearer_token h =
     (if take 7 h = ''Bearer '' \<and> drop 7 h \<noteq> [] then Some (drop 7 h) else None)"

text \<open>
  Modelled from the spec: the Authentication Gate (4.4), \<open>protect\<close> of the missing
  middleware/auth.js. The header must hold a bearer token, the token must verify, and
  the principal of its subject must exist; that principal is the result.
\<close>

definition protect :: "env \<Rightarrow> nat \<Rightarrow> string option \<Rightarrow> user list \<Rightarrow> gate_reason + user" where
  "protect E now h us =
     (case h of
        None \<Rightarrow> Inl NoHeader
      | Some a \<Rightarrow>
          (case bearer_token a of
             None \<Rightarrow> Inl MalformedHeader
           | Some tok \<Rightarrow>
               (case token_verify (lib E) (secret E) now tok of
                  Inl e \<Rightarrow> Inl (BadToken e)
                | Inr i \<Rightarrow>
                    (case findById i us of
                       None \<Rightarrow> Inl StalePrincipal
                     | Some u \<Rightarrow> Inr u))))"

text \<open>
  Modelled from the spec: a route behind the gate (4.4, 6), as \<open>router.use(protect)\<close>
  makes every route of the tasks and users routers. The gate answers 401 and the
  handler does not run, or the handler runs with the principal that the gate resolved.
\<close>

definition protected :: "env \<Rightarrow> nat \<Rightarrow> string option \<Rightarrow> user list \<Rightarrow> (user \<Rightarrow> response) \<Rightarrow> response" where
  "protected E now h us handler =
     (case protect E now h us of
        Inl why \<Rightarrow> refusal Unauthenticated
      | Inr u \<Rightarrow> handler u)"

text \<open>
  Modelled from the spec: the handler of \<open>GET /auth/me\<close> (6), missing with
  routes/auth.js: 200 with the public view of the calling principal.
\<close>

definition auth_me :: "user \<Rightarrow> response" where
  "auth_me u = \<lparr>http_status = 200, body = Success None (Some (AuthData (public_view u) None))\<rparr>"

section \<open>The stored roles\<close>

text \<open>The invariant of the roles: each stored role is one of the two.\<close>

definition roles_ok :: "user list \<Rightarrow> bool" where
  "roles_ok us = list_all (\<lambda>u. role u = ''user'' \<or> role u = ''admin'') us"

text \<open>
  The stores that the operations that write principals produce. The collection is
  empty at first, or the seed script has emptied it and created \<open>Admin User\<close> with role
  \<open>admin\<close> and \<open>John Doe\<close> with role \<open>user\<close>. A registration, which runs behind
  \<open>validateRegister\<close>, appends a principal with the role of its body (\<open>user\<close> when the
  body has none); a role update is the handler of the users router.
\<close>

inductive reachable :: "(string \<Rightarrow> bool) \<Rightarrow> user list \<Rightarrow> bool" for em :: "string \<Rightarrow> bool" where
  start: "reachable em []"
| seeded: "role a = ''admin'' \<Longrightarrow> role j = ''user'' \<Longrightarrow> reachable em [a, j]"
| registration:
    "reachable em us \<Longrightarrow> validateRegister em b = None \<Longrightarrow>
     role u = role_or_default (the_role (map_of b ''role'')) \<Longrightarrow> reachable em (us @ [u])"
| role_update: "reachable em us \<Longrightarrow> reachable em (snd (router_patch_id_role pid b us))"

section \<open>Sample data\<close>

text \<open>
  Three stored users, the third an administrator; a task of each of the first two; a
  body that names another creator; date rules that know no date.
\<close>

definition ann :: user where
  "ann = \<lparr>user_id = 1, name = ''Ann'', email = ''ann@x.com'', password = Digest ''s1'' ''h1'', role = ''user''\<rparr>"

definition bob :: user where
  "bob = \<lparr>user_id = 2, name = ''Bob'', email = ''bob@x.com'', password = Digest ''s2'' ''h2'', role = ''user''\<rparr>"

definition root :: user where
  "root = \<lparr>user_id = 3, name = ''Root'', email = ''root@x.com'', password = Digest ''s3'' ''h3'', role = ''admin''\<rparr>"

definition people :: "user list" where
  "people = [ann, bob, root]"

definition t7 :: task where
  "t7 = \<lparr>task_id = 7, title = ''Write'', description = ''the report'', status = ''pending'',
         priority = ''low'', dueDate = None, createdBy = 1\<rparr>"

definition t8 :: task where
  "t8 = \<lparr>task_id = 8, title = ''Read'', description = ''the mail'', status = ''pending'',
         priority = ''high'', dueDate = None, createdBy = 2\<rparr>"

definition sample_body :: jsobject where
  "sample_body = [(''title'', VStr ''Plan''), (''createdBy'', VOid 2), (''description'', VStr ''the week'')]"

definition no_dates :: dates where
  "no_dates = \<lparr>joi_accepts = (\<lambda>s. False), mongoose_casts = (\<lambda>s. None)\<rparr>"

text \<open>
  Date rules that differ on the digits of a timestamp, which Joi reads and Mongoose
  does not cast.
\<close>

definition stamp_dates :: dates where
  "stamp_dates = \<lparr>joi_accepts = (\<lambda>s. s \<noteq> [] \<and> list_all (\<lambda>c. c \<in> set ''0123456789'') s),
                   mongoose_casts = (\<lambda>s. None)\<rparr>"

text \<open>
  The settings of the examples: the library in unary, whose signature is the secret
  followed by the subject.
\<close>

definition sample_env :: env where
  "sample_env = \<lparr>kdf = (\<lambda>s p. s @ p), lib = sample_lib, is_email = (\<lambda>s. CHR ''@'' \<in> set s),
                  secret = ''k'', ttl = 5\<rparr>"

text \<open>A registration, the principal it creates, and a second one with the email in capitals.\<close>

definition carol_body :: jsobject where
  "carol_body = registration_body ''Carol'' ''Carol@x.com'' ''secret1'' None"

definition carol :: user where
  "carol = \<lparr>user_id = 1, name = ''Carol'', email = ''Carol@x.com'',
            password = Digest ''salt'' ''saltsecret1'', role = ''user''\<rparr>"

definition shout_body :: jsobject where
  "shout_body = registration_body ''Carol II'' ''CAROL@X.COM'' ''another1'' (Some ''admin'')"

text \<open>
  An email that begins with the small letter U+00E9, the principal registered with it,
  and the email in capitals, which begins with U+00C9.
\<close>

definition emile_email :: string where
  "emile_email = CHR 0xE9 # ''mile@x.com''"

definition emile :: user where
  "emile = \<lparr>user_id = 1, name = ''Emile'', email = emile_email,
            password = Digest ''salt'' ''saltsecret1'', role = ''user''\<rparr>"

definition emile_capitals :: string where
  "emile_capitals = CHR 0xC9 # ''MILE@X.COM''"

section \<open>Searching and changing a collection\<close>

lemma find_none_iff: "find P xs = None \<longleftrightarrow> (\<forall>x\<in>set xs. \<not> P x)"
  by (induction xs) auto

lemma update_first_none: "find P xs = None \<Longrightarrow> update_first P f xs = (None, xs)"
  by (induction xs) (auto split: if_splits)

lemma remove_first_none: "find P xs = None \<Longrightarrow> remove_first P xs = (None, xs)"
  by (induction xs) (auto split: if_splits)

lemma find_split:
  "find P xs = Some x \<Longrightarrow> \<exists>pre post. xs = pre @ x # post \<and> (\<forall>y\<in>set pre. \<not> P y) \<and> P x"
proof (induction xs)
  case Nil
  then show ?case by simp
next
  case (Cons a xs)
  show ?case
  proof (cases "P a")
    case True
    with Cons.prems have "a = x" by simp
    with True have "a # xs = [] @ x # xs \<and> (\<forall>y\<in>set []. \<not> P y) \<and> P x" by simp
    then show ?thesis by blast
  next
    case False
    with Cons.prems have "find P xs = Some x" by simp
    from Cons.IH[OF this] obtain pre post where
      "xs = pre @ x # post" "\<forall>y\<in>set pre. \<not> P y" "P x" by blast
    with False have "a # xs = (a # pre) @ x # post \<and> (\<forall>y\<in>set (a # pre). \<not> P y) \<and> P x" by simp
    then show ?thesis by blast
  qed
qed

lemma update_first_split:
  "\<forall>y\<in>set pre. \<not> P y \<Longrightarrow> P x \<Longrightarrow> update_first P f (pre @ x # post) = (Some (f x), pre @ f x # post)"
  by (induction pre) auto

lemma remove_first_split:
  "\<forall>y\<in>set pre. \<not> P y \<Longrightarrow> P x \<Longrightarrow> remove_first P (pre @ x # post) = (Some x, pre @ post)"
  by (induction pre) auto



section \<open>The task routes: who reaches a task\<close>

lemma task_query_simps:
  "q_id (task_query u pid) = pid"
  "q_createdBy (task_query u pid) = (if role u \<noteq> ''admin'' then Some (user_id u) else None)"
  by (simp_all add: task_query_def)







lemma put_handler_good:
  "cast_update dp b = Inr up \<Longrightarrow>
   put_handler dp u (GoodId i) b ts us =
     (case update_first (matches i (q_createdBy (task_query u (GoodId i)))) (apply_update up) ts of
        (None, ts') \<Rightarrow> (task_not_found, ts')
      | (Some t, ts') \<Rightarrow> (task_response 200 (Some ''Task updated successfully'') us t, ts'))"
  by (simp add: put_handler_def Task_findOneAndUpdate_def task_query_simps and_then_def split: prod.splits option.splits)

lemma put_handler_bad:
  "cast_update dp b = Inl e \<Longrightarrow> put_handler dp u (GoodId i) b ts us = (server_error, ts)"
  by (simp add: put_handler_def Task_findOneAndUpdate_def task_query_simps and_then_def)



text \<open>What the validation of an update admits, and what Mongoose makes of it.\<close>

lemma first_error_none: "first_error cs = None \<longleftrightarrow> (\<forall>c\<in>set cs. c = None)"
  by (induction cs rule: first_error.induct) auto

lemma unknown_key_none:
  "unknown_key known b = None \<Longrightarrow> k \<notin> set known \<Longrightarrow> k \<noteq> ''__proto__'' \<Longrightarrow> map_of b k = None"
proof -
  assume a: "unknown_key known b = None" and k: "k \<notin> set known" "k \<noteq> ''__proto__''"
  from a have "filter (\<lambda>k. k \<notin> set known \<and> k \<noteq> ''__proto__'') (map fst b) = []"
    by (simp add: unknown_key_def split: list.splits)
  then have "\<forall>x\<in>set (map fst b). x \<in> set known \<or> x = ''__proto__''"
    by (auto simp: filter_empty_conv)
  with k have "k \<notin> fst ` set b" by auto
  then show ?thesis by (simp add: map_of_eq_None_iff)
qed

lemma validated_update_keeps_owner:
  "validateTaskUpdate dp b = None \<Longrightarrow> map_of b ''createdBy'' = None"
proof -
  assume "validateTaskUpdate dp b = None"
  then have "unknown_key task_keys b = None"
    by (simp add: validateTaskUpdate_def first_error_none)
  then show ?thesis by (rule unknown_key_none) (simp_all add: task_keys_def)
qed

lemma joi_get_own: "map_of b k = Some v \<Longrightarrow> joi_get b k = Some v"
  by (simp add: joi_get_def)

lemma joi_valid_none:
  "joi_valid k allowed v = None \<Longrightarrow> v = None \<or> (\<exists>s\<in>set allowed. v = Some (VStr s))"
  by (cases "(k, allowed, v)" rule: joi_valid.cases) (auto split: if_splits)




lemma cast_update_owner:
  "cast_update dp b = Inr up \<Longrightarrow> map_of b ''createdBy'' = None \<Longrightarrow> set_createdBy up = None"
  by (auto simp: cast_update_def and_then_def optional_def split: sum.splits)

lemma apply_update_owner: "set_createdBy up = None \<Longrightarrow> createdBy (apply_update up t) = createdBy t"
  by (simp add: apply_update_def)

lemma apply_update_id: "task_id (apply_update up t) = task_id t"
  by (simp add: apply_update_def)








text \<open>
  Where Mongoose refuses the update the answer is 500 for every caller: a title of one
  no-break space passes \<open>validateTaskUpdate\<close> and is empty once trimmed, and the digits
  of a timestamp are a date for Joi and none for Mongoose.
\<close>

lemma refused_updates:
  "router_put_id no_dates ann (GoodId 7) [(''title'', VStr [CHR 0xA0])] [t7] people = (server_error, [t7])"
  "router_put_id no_dates bob (GoodId 7) [(''title'', VStr [CHR 0xA0])] [t7] people = (server_error, [t7])"
  "router_put_id stamp_dates ann (GoodId 7) [(''dueDate'', VStr ''13'')] [t7] people = (server_error, [t7])"
  "router_put_id stamp_dates bob (GoodId 7) [(''dueDate'', VStr ''13'')] [t7] people = (server_error, [t7])"
  by (simp_all add: router_put_id_def validateTaskUpdate_def joi_get_def unknown_key_def task_keys_def
      put_handler_def Task_findOneAndUpdate_def task_query_def cast_update_def optional_def and_then_def
      trim_def is_space_def no_dates_def stamp_dates_def)

text \<open>
  What Joi reads under \<open>__proto__\<close>: the key itself is no unknown key, and a value of
  the object under it is validated as the body's own.
\<close>

lemma inherited_keys:
  "validateTaskUpdate no_dates [(''__proto__'', VObj [])] = None"
  "validateTaskUpdate no_dates [(''__proto__'', VObj [(''status'', VStr ''done'')])]
     = Some (bad_request (NotOneOf ''status'' status_values))"
  "validateTaskUpdate no_dates [(''owner'', VStr ''x'')] = Some (bad_request (NotAllowed ''owner''))"
  by (simp_all add: validateTaskUpdate_def joi_get_def unknown_key_def task_keys_def status_values_def)


section \<open>The task routes: what a request changes\<close>

lemma update_first_cases:
  "update_first P f xs = (None, xs)
   \<or> (\<exists>pre x post. xs = pre @ x # post \<and> P x \<and> update_first P f xs = (Some (f x), pre @ f x # post))"
proof (cases "find P xs")
  case None
  then show ?thesis by (simp add: update_first_none)
next
  case (Some x)
  from find_split[OF this] obtain pre post where
    "xs = pre @ x # post" "\<forall>y\<in>set pre. \<not> P y" "P x" by blast
  then show ?thesis using update_first_split[of pre P x f post] by blast
qed

lemma remove_first_cases:
  "remove_first P xs = (None, xs)
   \<or> (\<exists>pre x post. xs = pre @ x # post \<and> P x \<and> remove_first P xs = (Some x, pre @ post))"
proof (cases "find P xs")
  case None
  then show ?thesis by (simp add: remove_first_none)
next
  case (Some x)
  from find_split[OF this] obtain pre post where
    "xs = pre @ x # post" "\<forall>y\<in>set pre. \<not> P y" "P x" by blast
  then show ?thesis using remove_first_split[of pre P x post] by blast
qed

lemma put_changes:
  assumes "role u \<noteq> ''admin''"
  shows "snd (router_put_id dp u pid b ts us) = ts
      \<or> (\<exists>pre t t' post. ts = pre @ t # post
            \<and> snd (router_put_id dp u pid b ts us) = pre @ t' # post
            \<and> createdBy t = user_id u \<and> createdBy t' = user_id u \<and> task_id t' = task_id t)"
proof (cases "validateTaskUpdate dp b")
  case (Some r)
  then show ?thesis by (simp add: router_put_id_def)
next
  case None
  then have r: "\<And>p. router_put_id dp u p b ts us = put_handler dp u p b ts us"
    by (simp add: router_put_id_def)
  show ?thesis
  proof (cases pid)
    case (BadId s)
    then show ?thesis
      by (simp add: r put_handler_def Task_findOneAndUpdate_def task_query_simps)
  next
    case (GoodId i)
    show ?thesis
    proof (cases "cast_update dp b")
      case (Inl e)
      then show ?thesis by (simp add: r GoodId put_handler_bad[OF Inl])
    next
      case (Inr up)
      let ?P = "matches i (q_createdBy (task_query u (GoodId i)))"
      have o: "set_createdBy up = None"
        using Inr None by (simp add: cast_update_owner validated_update_keeps_owner)
      from update_first_cases[of ?P "apply_update up" ts] show ?thesis
      proof
        assume "update_first ?P (apply_update up) ts = (None, ts)"
        then show ?thesis by (simp add: r GoodId put_handler_good[OF Inr])
      next
        assume "\<exists>pre x post. ts = pre @ x # post \<and> ?P x
                  \<and> update_first ?P (apply_update up) ts = (Some (apply_update up x), pre @ apply_update up x # post)"
        then obtain pre x post where
          d: "ts = pre @ x # post" and px: "?P x"
          and e: "update_first ?P (apply_update up) ts = (Some (apply_update up x), pre @ apply_update up x # post)"
          by blast
        from px assms have ox: "createdBy x = user_id u"
          by (simp add: matches_def task_query_simps)
        have s: "snd (router_put_id dp u pid b ts us) = pre @ apply_update up x # post"
          using e by (simp add: r GoodId put_handler_good[OF Inr])
        have "ts = pre @ x # post \<and> snd (router_put_id dp u pid b ts us) = pre @ apply_update up x # post
              \<and> createdBy x = user_id u \<and> createdBy (apply_update up x) = user_id u
              \<and> task_id (apply_update up x) = task_id x"
          using d s ox o by (simp add: apply_update_owner apply_update_id)
        then show ?thesis by blast
      qed
    qed
  qed
qed

lemma delete_changes:
  assumes "role u \<noteq> ''admin''"
  shows "snd (router_delete_id u pid ts) = ts
      \<or> (\<exists>pre t post. ts = pre @ t # post \<and> snd (router_delete_id u pid ts) = pre @ post
            \<and> createdBy t = user_id u)"
proof (cases pid)
  case (BadId s)
  then show ?thesis
    by (simp add: router_delete_id_def Task_findOneAndDelete_def task_query_simps)
next
  case (GoodId i)
  let ?P = "matches i (q_createdBy (task_query u (GoodId i)))"
  from remove_first_cases[of ?P ts] show ?thesis
  proof
    assume "remove_first ?P ts = (None, ts)"
    then show ?thesis
      by (simp add: GoodId router_delete_id_def Task_findOneAndDelete_def task_query_simps)
  next
    assume "\<exists>pre x post. ts = pre @ x # post \<and> ?P x \<and> remove_first ?P ts = (Some x, pre @ post)"
    then obtain pre x post where
      d: "ts = pre @ x # post" and px: "?P x" and e: "remove_first ?P ts = (Some x, pre @ post)"
      by blast
    from px assms have ox: "createdBy x = user_id u"
      by (simp add: matches_def task_query_simps)
    have "snd (router_delete_id u pid ts) = pre @ post"
      using e by (simp add: GoodId router_delete_id_def Task_findOneAndDelete_def task_query_simps)
    with d ox show ?thesis by blast
  qed
qed

text \<open>
  C10. A caller who is not an admin sends an update or a delete request, with any id
  and any body. The collection is left as it was, or exactly one task changes: a task
  the caller owns, which the update replaces by a task of the same id and owner and
  the delete removes. The tasks of every other owner are the same afterwards, in the
  same order.
\<close>

theorem mutation_leaves_other_owners_tasks:
  assumes "role u \<noteq> ''admin''"
  shows
    "(snd (router_put_id dp u pid b ts us) = ts
        \<or> (\<exists>pre t t' post. ts = pre @ t # post
              \<and> snd (router_put_id dp u pid b ts us) = pre @ t' # post
              \<and> createdBy t = user_id u \<and> createdBy t' = user_id u \<and> task_id t' = task_id t))
     \<and> filter (\<lambda>t. createdBy t \<noteq> user_id u) (snd (router_put_id dp u pid b ts us))
          = filter (\<lambda>t. createdBy t \<noteq> user_id u) ts
     \<and> (snd (router_delete_id u pid ts) = ts
        \<or> (\<exists>pre t post. ts = pre @ t # post \<and> snd (router_delete_id u pid ts) = pre @ post
              \<and> createdBy t = user_id u))
     \<and> filter (\<lambda>t. createdBy t \<noteq> user_id u) (snd (router_delete_id u pid ts))
          = filter (\<lambda>t. createdBy t \<noteq> user_id u) ts"
proof -
  note p = put_changes[OF assms, of dp pid b ts us]
  note d = delete_changes[OF assms, of pid ts]
  have fp: "filter (\<lambda>t. createdBy t \<noteq> user_id u) (snd (router_put_id dp u pid b ts us))
          = filter (\<lambda>t. createdBy t \<noteq> user_id u) ts"
    using p by auto
  have fd: "filter (\<lambda>t. createdBy t \<noteq> user_id u) (snd (router_delete_id u pid ts))
          = filter (\<lambda>t. createdBy t \<noteq> user_id u) ts"
    using d by auto
  from p fp d fd show ?thesis by blast
qed

theorem mutation_leaves_other_owners_tasks_witness:
  "filter (\<lambda>t. createdBy t \<noteq> user_id ann)
      (snd (router_put_id no_dates ann (GoodId 8) [(''status'', VStr ''completed'')] [t7, t8] people)) = [t8]
   \<and> filter (\<lambda>t. createdBy t \<noteq> user_id ann) (snd (router_delete_id ann (GoodId 8) [t7, t8])) = [t8]
   \<and> filter (\<lambda>t. createdBy t \<noteq> user_id ann) (snd (router_delete_id ann (GoodId 7) [t7, t8])) = [t8]"
proof -
  have r: "role ann \<noteq> ''admin''" by (simp add: ann_def)
  have f: "filter (\<lambda>t. createdBy t \<noteq> user_id ann) [t7, t8] = [t8]"
    by (simp add: ann_def t7_def t8_def)
  from mutation_leaves_other_owners_tasks[OF r, of no_dates "GoodId 8" "[(''status'', VStr ''completed'')]" "[t7, t8]" people]
    mutation_leaves_other_owners_tasks[OF r, of no_dates "GoodId 7" "[]" "[t7, t8]" people]
    f show ?thesis by simp
qed

section \<open>The task routes: whose task a new task is\<close>

lemma taskData_owner: "map_of (taskData u b) ''createdBy'' = Some (VOid (user_id u))"
  by (simp add: taskData_def update_conv')

lemma Task_create_result:
  "Task_create dp d ts = Inr (t, ts') \<Longrightarrow>
   ts' = ts @ [t] \<and> required ''createdBy'' (cast_oid ''createdBy'') (map_of d ''createdBy'') = Inr (createdBy t)"
  by (auto simp: Task_create_def and_then_def Let_def split: sum.splits)

lemma post_handler_cases:
  "post_handler dp u b ts us = (server_error, ts)
   \<or> (\<exists>t. post_handler dp u b ts us = (task_response 201 (Some ''Task created successfully'') us t, ts @ [t])
          \<and> createdBy t = user_id u)"
proof (cases "Task_create dp (taskData u b) ts")
  case (Inl e)
  then show ?thesis by (simp add: post_handler_def)
next
  case (Inr p)
  obtain t ts' where p: "p = (t, ts')" by (cases p)
  from Task_create_result[OF Inr[unfolded p]]
  have "ts' = ts @ [t]" and "createdBy t = user_id u"
    by (simp_all add: taskData_owner required_def)
  with Inr p show ?thesis by (simp add: post_handler_def)
qed

text \<open>
  C9. Whatever the body holds, also a \<open>createdBy\<close> of its own, \<open>taskData.createdBy\<close> is the
  caller's id. The handler of \<open>POST /api/v1/tasks\<close> either answers 500 and stores
  nothing, or appends one task, created by the caller, and answers 201 with it; the
  route answers 400 and stores nothing when \<open>validateTask\<close> rejects the body, and does
  what the handler does otherwise.
\<close>

theorem created_task_belongs_to_caller:
  "map_of (taskData u b) ''createdBy'' = Some (VOid (user_id u))
   \<and> (post_handler dp u b ts us = (server_error, ts)
      \<or> (\<exists>t. post_handler dp u b ts us
                = (task_response 201 (Some ''Task created successfully'') us t, ts @ [t])
             \<and> createdBy t = user_id u))
   \<and> ((\<exists>e. router_post dp u b ts us = (bad_request e, ts))
      \<or> router_post dp u b ts us = (server_error, ts)
      \<or> (\<exists>t. router_post dp u b ts us
                = (task_response 201 (Some ''Task created successfully'') us t, ts @ [t])
             \<and> createdBy t = user_id u))"
proof -
  note h = post_handler_cases[of dp u b ts us]
  have "(\<exists>e. router_post dp u b ts us = (bad_request e, ts))
      \<or> router_post dp u b ts us = (server_error, ts)
      \<or> (\<exists>t. router_post dp u b ts us
                = (task_response 201 (Some ''Task created successfully'') us t, ts @ [t])
             \<and> createdBy t = user_id u)"
  proof (cases "validateTask dp b")
    case None
    then have "router_post dp u b ts us = post_handler dp u b ts us"
      by (simp add: router_post_def)
    with h show ?thesis by simp
  next
    case (Some r)
    then obtain e where "r = bad_request e" by (auto simp: validateTask_def)
    with Some have "router_post dp u b ts us = (bad_request e, ts)" by (simp add: router_post_def)
    then show ?thesis by blast
  qed
  with h taskData_owner show ?thesis by blast
qed

lemma sample_post:
  "post_handler no_dates ann sample_body [t7] people =
     (task_response 201 (Some ''Task created successfully'') people
        \<lparr>task_id = 8, title = ''Plan'', description = ''the week'', status = ''pending'',
          priority = ''medium'', dueDate = None, createdBy = 1\<rparr>,
      [t7, \<lparr>task_id = 8, title = ''Plan'', description = ''the week'', status = ''pending'',
          priority = ''medium'', dueDate = None, createdBy = 1\<rparr>])"
  by (simp add: post_handler_def Task_create_def taskData_def sample_body_def and_then_def
      required_def with_default_def trim_def is_space_def new_id_def ann_def t7_def Let_def)

text \<open>
  A title that is a number stops at \<open>validateTask\<close>; the handler alone would store its
  digits.
\<close>

lemma number_strings:
  "number_string 123 = ''123''" "number_string 0 = ''0''" "number_string (- 40) = ''-40''"
  by (simp_all add: number_string_def digits.simps digit_char_def)

lemma number_title:
  "router_post no_dates ann [(''title'', VNum 123), (''description'', VStr ''the week'')] [t7] people
     = (bad_request (NotAString ''title''), [t7])"
  "post_handler no_dates ann [(''title'', VNum 123), (''description'', VStr ''the week'')] [t7] people =
     (task_response 201 (Some ''Task created successfully'') people
        \<lparr>task_id = 8, title = ''123'', description = ''the week'', status = ''pending'',
          priority = ''medium'', dueDate = None, createdBy = 1\<rparr>,
      [t7, \<lparr>task_id = 8, title = ''123'', description = ''the week'', status = ''pending'',
          priority = ''medium'', dueDate = None, createdBy = 1\<rparr>])"
  by (simp_all add: router_post_def validateTask_def joi_get_def post_handler_def Task_create_def
      taskData_def and_then_def required_def with_default_def trim_def is_space_def new_id_def
      number_strings ann_def t7_def Let_def)

theorem created_task_belongs_to_caller_witness:
  "map_of sample_body ''createdBy'' = Some (VOid 2)
   \<and> map_of (taskData ann sample_body) ''createdBy'' = Some (VOid 1)
   \<and> (\<exists>t. post_handler no_dates ann sample_body [t7] people
             = (task_response 201 (Some ''Task created successfully'') people t, [t7, t])
          \<and> createdBy t = 1)"
proof -
  have i: "user_id ann = 1" by (simp add: ann_def)
  have n: "post_handler no_dates ann sample_body [t7] people \<noteq> (server_error, [t7])"
    by (simp add: sample_post)
  from created_task_belongs_to_caller[of ann sample_body no_dates "[t7]" people] n
  show ?thesis by (simp add: i sample_body_def)
qed

section \<open>The role update: its outcomes\<close>

lemma patch_invalid:
  "map_of b ''role'' \<noteq> Some (VStr ''user'') \<Longrightarrow> map_of b ''role'' \<noteq> Some (VStr ''admin'') \<Longrightarrow>
   router_patch_id_role pid b us = (invalid_role, us)"
  by (auto simp: router_patch_id_role_def split: option.splits jsval.splits)

lemma patch_valid:
  "map_of b ''role'' = Some (VStr r) \<Longrightarrow> r = ''user'' \<or> r = ''admin'' \<Longrightarrow>
   router_patch_id_role pid b us =
     (case User_findByIdAndUpdate pid r us of
        Inl e \<Rightarrow> (server_error, us)
      | Inr (None, us') \<Rightarrow> (user_not_found, us')
      | Inr (Some u, us') \<Rightarrow> (role_updated u, us'))"
  by (auto simp: router_patch_id_role_def)

lemma patch_absent:
  assumes "map_of b ''role'' = Some (VStr r)" "r = ''user'' \<or> r = ''admin''"
    and "i \<notin> set (map user_id us)"
  shows "router_patch_id_role (GoodId i) b us = (user_not_found, us)"
proof -
  from assms(3) have "find (\<lambda>u. user_id u = i) us = None"
    by (auto simp: find_none_iff)
  then show ?thesis
    by (simp add: patch_valid[OF assms(1,2)] User_findByIdAndUpdate_def update_first_none)
qed

lemma patch_present:
  assumes "map_of b ''role'' = Some (VStr r)" "r = ''user'' \<or> r = ''admin''"
    and "find (\<lambda>x. user_id x = i) us = Some u"
  shows "\<exists>pre post. us = pre @ u # post \<and> (\<forall>x\<in>set pre. user_id x \<noteq> i)
           \<and> router_patch_id_role (GoodId i) b us
               = (role_updated (u\<lparr>role := r\<rparr>), pre @ u\<lparr>role := r\<rparr> # post)"
proof -
  from find_split[OF assms(3)] obtain pre post where
    d: "us = pre @ u # post" and n: "\<forall>x\<in>set pre. user_id x \<noteq> i" and p: "user_id u = i"
    by blast
  have "update_first (\<lambda>x. user_id x = i) (\<lambda>x. x\<lparr>role := r\<rparr>) (pre @ u # post)
          = (Some (u\<lparr>role := r\<rparr>), pre @ u\<lparr>role := r\<rparr> # post)"
    using n p by (simp add: update_first_split)
  then have "router_patch_id_role (GoodId i) b us
               = (role_updated (u\<lparr>role := r\<rparr>), pre @ u\<lparr>role := r\<rparr> # post)"
    by (simp add: patch_valid[OF assms(1,2)] User_findByIdAndUpdate_def d)
  with d n show ?thesis by blast
qed

text \<open>
  C7 (amended). The role update answers 400 \<open>InvalidRole\<close> when the supplied role is not
  the string \<open>user\<close> or \<open>admin\<close>, whatever the id. For a valid role it answers 404 when
  no principal has the (well-formed) id, 500 when the id is malformed, and otherwise
  200 with the first principal of that id, whose role is now the supplied one. On each
  failure the stored principals are unchanged; on success only that principal changes.
\<close>

theorem role_update_outcomes:
  "(map_of b ''role'' \<noteq> Some (VStr ''user'') \<and> map_of b ''role'' \<noteq> Some (VStr ''admin'') \<longrightarrow>
      router_patch_id_role pid b us = (invalid_role, us))
   \<and> (map_of b ''role'' = Some (VStr r) \<and> (r = ''user'' \<or> r = ''admin'') \<longrightarrow>
        (i \<notin> set (map user_id us) \<longrightarrow> router_patch_id_role (GoodId i) b us = (user_not_found, us))
      \<and> router_patch_id_role (BadId s) b us = (server_error, us)
      \<and> (find (\<lambda>x. user_id x = i) us = Some u \<longrightarrow>
            (\<exists>pre post. us = pre @ u # post \<and> (\<forall>x\<in>set pre. user_id x \<noteq> i)
               \<and> router_patch_id_role (GoodId i) b us
                   = (role_updated (u\<lparr>role := r\<rparr>), pre @ u\<lparr>role := r\<rparr> # post))))"
proof (intro conjI impI)
  assume "map_of b ''role'' \<noteq> Some (VStr ''user'') \<and> map_of b ''role'' \<noteq> Some (VStr ''admin'')"
  then show "router_patch_id_role pid b us = (invalid_role, us)"
    by (simp add: patch_invalid)
next
  assume v: "map_of b ''role'' = Some (VStr r) \<and> (r = ''user'' \<or> r = ''admin'')"
  then have v1: "map_of b ''role'' = Some (VStr r)" and v2: "r = ''user'' \<or> r = ''admin''"
    by simp_all
  show "router_patch_id_role (GoodId i) b us = (user_not_found, us)"
    if "i \<notin> set (map user_id us)"
    using that by (rule patch_absent[OF v1 v2])
  show "router_patch_id_role (BadId s) b us = (server_error, us)"
    by (simp add: patch_valid[OF v1 v2] User_findByIdAndUpdate_def)
  show "\<exists>pre post. us = pre @ u # post \<and> (\<forall>x\<in>set pre. user_id x \<noteq> i)
               \<and> router_patch_id_role (GoodId i) b us
                   = (role_updated (u\<lparr>role := r\<rparr>), pre @ u\<lparr>role := r\<rparr> # post)"
    if "find (\<lambda>x. user_id x = i) us = Some u"
    using that by (rule patch_present[OF v1 v2])
qed

theorem role_update_outcomes_witness:
  "router_patch_id_role (GoodId 9) [] people = (invalid_role, people)
   \<and> router_patch_id_role (GoodId 9) [(''role'', VStr ''admin'')] people = (user_not_found, people)
   \<and> router_patch_id_role (BadId ''x'') [(''role'', VStr ''admin'')] people = (server_error, people)
   \<and> router_patch_id_role (GoodId 2) [(''role'', VStr ''admin'')] people
        = (role_updated (bob\<lparr>role := ''admin''\<rparr>), [ann, bob\<lparr>role := ''admin''\<rparr>, root])"
proof -
  let ?b = "[(''role'', VStr ''admin'')]"
  have a: "map_of ?b ''role'' = Some (VStr ''admin'') \<and> (''admin'' = ''user'' \<or> ''admin'' = ''admin'')"
    by simp
  have e: "map_of ([] :: jsobject) ''role'' \<noteq> Some (VStr ''user'')
           \<and> map_of ([] :: jsobject) ''role'' \<noteq> Some (VStr ''admin'')" by simp
  have n: "9 \<notin> set (map user_id people)" by (simp add: people_def ann_def bob_def root_def)
  have f: "find (\<lambda>x. user_id x = 2) people = Some bob" by (simp add: people_def ann_def bob_def)
  from role_update_outcomes[of "[]" "GoodId 9" people "''admin''" 9 "''x''" bob] e
  have 1: "router_patch_id_role (GoodId 9) [] people = (invalid_role, people)" by blast
  from role_update_outcomes[of ?b "GoodId 9" people "''admin''" 9 "''x''" bob] a n
  have 2: "router_patch_id_role (GoodId 9) ?b people = (user_not_found, people)"
    and 3: "router_patch_id_role (BadId ''x'') ?b people = (server_error, people)" by blast+
  from role_update_outcomes[of ?b "GoodId 2" people "''admin''" 2 "''x''" bob] a f
  obtain pre post where d: "people = pre @ bob # post" and m: "\<forall>x\<in>set pre. user_id x \<noteq> 2"
    and r: "router_patch_id_role (GoodId 2) ?b people
              = (role_updated (bob\<lparr>role := ''admin''\<rparr>), pre @ bob\<lparr>role := ''admin''\<rparr> # post)"
    by blast
  have "pre = [ann] \<and> post = [root]"
  proof -
    from d have "[ann, bob, root] = pre @ bob # post" by (simp add: people_def)
    moreover have "ann \<noteq> bob" "root \<noteq> bob" by (simp_all add: ann_def bob_def root_def)
    ultimately show ?thesis
      by (auto simp: append_eq_Cons_conv Cons_eq_append_conv)
  qed
  with r have 4: "router_patch_id_role (GoodId 2) ?b people
        = (role_updated (bob\<lparr>role := ''admin''\<rparr>), [ann, bob\<lparr>role := ''admin''\<rparr>, root])" by simp
  from 1 2 3 4 show ?thesis by simp
qed

text \<open>
  The claim as it was stated fails where both conditions hold: no principal has the
  id 9, and the answer is the 400 of the role, which is checked first, not 404.
\<close>

theorem role_update_outcomes_counterexample:
  "9 \<notin> set (map user_id people)
   \<and> http_status (fst (router_patch_id_role (GoodId 9) [(''role'', VStr ''root'')] people)) = 400"
  by (simp add: people_def ann_def bob_def root_def router_patch_id_role_def invalid_role_def)

section \<open>The roles that are stored\<close>

lemma validated_role:
  assumes "validateRegister em b = None"
  shows "the_role (map_of b ''role'') = None \<and> map_of b ''role'' = None
         \<or> the_role (map_of b ''role'') = Some ''user''
         \<or> the_role (map_of b ''role'') = Some ''admin''"
proof (cases "map_of b ''role''")
  case None
  then show ?thesis by (simp add: the_role_def)
next
  case (Some v)
  from assms have "joi_valid ''role'' [''user'', ''admin''] (joi_get b ''role'') = None"
    by (simp add: validateRegister_def first_error_none)
  with Some have "joi_valid ''role'' [''user'', ''admin''] (Some v) = None"
    by (simp add: joi_get_own)
  from joi_valid_none[OF this] Some show ?thesis by (auto simp: the_role_def)
qed

lemma register_result:
  "register kd s n e p r us = Inr (u, us') \<Longrightarrow>
   findByEmail e us = None \<and> us' = us @ [u] \<and> user_id u = new_id (map user_id us) \<and> name u = n
   \<and> email u = e \<and> password u = hasher_hash kd s p \<and> role u = role_or_default r"
  by (auto simp: register_def Let_def split: if_splits)

lemma validated_role_or_default:
  assumes "validateRegister em b = None"
  shows "role_or_default (the_role (map_of b ''role'')) = ''user''
       \<or> role_or_default (the_role (map_of b ''role'')) = ''admin''"
  using validated_role[OF assms] by (auto simp: role_or_default_def)

lemma auth_register_cases:
  "(\<exists>r. auth_register E now s b us = (r, us) \<and> http_status r \<noteq> 201)
   \<or> (\<exists>u. auth_register E now s b us
             = (auth_response 201 u (token_issue (lib E) (secret E) now (user_id u) (ttl E)), us @ [u])
          \<and> validateRegister (is_email E) b = None
          \<and> role u = role_or_default (the_role (map_of b ''role'')))"
proof (cases "validateRegister (is_email E) b")
  case (Some r)
  then obtain e where "r = bad_request e" by (auto simp: validateRegister_def)
  with Some have "auth_register E now s b us = (r, us) \<and> http_status r \<noteq> 201"
    by (simp add: auth_register_def bad_request_def)
  then show ?thesis by blast
next
  case None
  let ?reg = "register (kdf E) s (the_string (map_of b ''name'')) (the_string (map_of b ''email''))
                  (the_string (map_of b ''password'')) (the_role (map_of b ''role'')) us"
  show ?thesis
  proof (cases ?reg)
    case (Inl e)
    then have "e = DuplicateIdentity" by (simp add: register_def Let_def split: if_splits)
    with Inl None have "auth_register E now s b us = (refusal e, us) \<and> http_status (refusal e) \<noteq> 201"
      by (simp add: auth_register_def refusal_def refusal_status_def)
    then show ?thesis by blast
  next
    case (Inr p)
    obtain u us' where p: "p = (u, us')" by (cases p)
    from register_result[OF Inr[unfolded p]]
    have a: "us' = us @ [u]" and r: "role u = role_or_default (the_role (map_of b ''role''))"
      by simp_all
    have "auth_register E now s b us
             = (auth_response 201 u (token_issue (lib E) (secret E) now (user_id u) (ttl E)), us @ [u])"
      using None Inr p a by (simp add: auth_register_def)
    with None r show ?thesis by (intro disjI2 exI[of _ u]) simp
  qed
qed

text \<open>The registration route, as the specification has it, is such a registration.\<close>

lemma registered_is_reachable:
  assumes "reachable (is_email E) us"
  shows "reachable (is_email E) (snd (auth_register E now s b us))"
  using auth_register_cases[of E now s b us]
proof
  assume "\<exists>r. auth_register E now s b us = (r, us) \<and> http_status r \<noteq> 201"
  with assms show ?thesis by auto
next
  assume "\<exists>u. auth_register E now s b us
             = (auth_response 201 u (token_issue (lib E) (secret E) now (user_id u) (ttl E)), us @ [u])
          \<and> validateRegister (is_email E) b = None
          \<and> role u = role_or_default (the_role (map_of b ''role''))"
  then obtain u where e: "snd (auth_register E now s b us) = us @ [u]"
    and v: "validateRegister (is_email E) b = None"
    and r: "role u = role_or_default (the_role (map_of b ''role''))" by auto
  from reachable.registration[OF assms v r] e show ?thesis by simp
qed

lemma roles_ok_append: "roles_ok (xs @ ys) \<longleftrightarrow> roles_ok xs \<and> roles_ok ys"
  by (simp add: roles_ok_def)

lemma patch_keeps_roles:
  assumes "roles_ok us"
  shows "roles_ok (snd (router_patch_id_role pid b us))"
proof (cases "map_of b ''role'' \<noteq> Some (VStr ''user'') \<and> map_of b ''role'' \<noteq> Some (VStr ''admin'')")
  case True
  with assms show ?thesis by (simp add: patch_invalid)
next
  case False
  then obtain r where v1: "map_of b ''role'' = Some (VStr r)" and v2: "r = ''user'' \<or> r = ''admin''"
    by auto
  show ?thesis
  proof (cases pid)
    case (BadId s)
    with assms show ?thesis by (simp add: patch_valid[OF v1 v2] User_findByIdAndUpdate_def)
  next
    case (GoodId i)
    from update_first_cases[of "\<lambda>u. user_id u = i" "\<lambda>u. u\<lparr>role := r\<rparr>" us] show ?thesis
    proof
      assume "update_first (\<lambda>u. user_id u = i) (\<lambda>u. u\<lparr>role := r\<rparr>) us = (None, us)"
      with assms show ?thesis
        by (simp add: GoodId patch_valid[OF v1 v2] User_findByIdAndUpdate_def)
    next
      assume "\<exists>pre x post. us = pre @ x # post \<and> user_id x = i
                \<and> update_first (\<lambda>u. user_id u = i) (\<lambda>u. u\<lparr>role := r\<rparr>) us
                    = (Some (x\<lparr>role := r\<rparr>), pre @ x\<lparr>role := r\<rparr> # post)"
      then obtain pre x post where d: "us = pre @ x # post"
        and e: "update_first (\<lambda>u. user_id u = i) (\<lambda>u. u\<lparr>role := r\<rparr>) us
                    = (Some (x\<lparr>role := r\<rparr>), pre @ x\<lparr>role := r\<rparr> # post)"
        by blast
      have "snd (router_patch_id_role pid b us) = pre @ x\<lparr>role := r\<rparr> # post"
        using e by (simp add: GoodId patch_valid[OF v1 v2] User_findByIdAndUpdate_def)
      with assms d v2 show ?thesis by (auto simp: roles_ok_def)
    qed
  qed
qed

lemma reachable_roles: "reachable em us \<Longrightarrow> roles_ok us"
proof (induction rule: reachable.induct)
  case start
  show ?case by (simp add: roles_ok_def)
next
  case (seeded a j)
  then show ?case by (simp add: roles_ok_def)
next
  case (registration us b u)
  from validated_role_or_default[OF registration.hyps(2)] registration.hyps(3)
  have "roles_ok [u]" by (simp add: roles_ok_def)
  with registration.IH show ?case by (simp add: roles_ok_append)
next
  case (role_update us pid b)
  then show ?case by (simp add: patch_keeps_roles)
qed

text \<open>
  C8. Every store that registrations and role updates produce, from the empty store or
  from the seeded one, holds only the roles \<open>user\<close> and \<open>admin\<close>: the role a registration
  stores is one of the two whenever \<open>validateRegister\<close> accepts its body, and a role
  update stores one of the two or nothing. The role stored for a body that has no
  \<open>role\<close> is \<open>user\<close>.
\<close>

theorem stored_roles_are_enumerated:
  "(reachable em us \<longrightarrow> roles_ok us)
   \<and> (roles_ok us \<longrightarrow> roles_ok (snd (router_patch_id_role pid b us)))
   \<and> (validateRegister em b = None \<longrightarrow>
        role_or_default (the_role (map_of b ''role'')) = ''user''
        \<or> role_or_default (the_role (map_of b ''role'')) = ''admin'')
   \<and> (map_of b ''role'' = None \<longrightarrow> role_or_default (the_role (map_of b ''role'')) = ''user'')"
proof (intro conjI impI)
  show "roles_ok us" if "reachable em us" using that by (rule reachable_roles)
  show "roles_ok (snd (router_patch_id_role pid b us))" if "roles_ok us"
    using that by (rule patch_keeps_roles)
  show "role_or_default (the_role (map_of b ''role'')) = ''user''
        \<or> role_or_default (the_role (map_of b ''role'')) = ''admin''"
    if "validateRegister em b = None"
    using that by (rule validated_role_or_default)
  show "role_or_default (the_role (map_of b ''role'')) = ''user''" if "map_of b ''role'' = None"
    using that by (simp add: role_or_default_def the_role_def)
qed

lemma unary_samples:
  "unary 0 = []" "unary 1 = ''1''" "unary (Suc 0) = ''1''" "unary 2 = ''11''" "unary 5 = ''11111''" "unary 7 = ''1111111''"
  by (simp_all add: unary_def eval_nat_numeral)

lemma sample_lib_simps:
  "sign sample_lib k c = k @ unary (sub c)"
  "encode sample_lib = sample_encode"
  "decode sample_lib = sample_decode"
  by (simp_all add: sign.rep_eq encode.rep_eq decode.rep_eq sample_lib.rep_eq sample_codec_def)

lemma carol_valid: "validateRegister (is_email sample_env) carol_body = None"
  by (simp add: validateRegister_def joi_get_def unknown_key_def carol_body_def registration_body_def
      sample_env_def)

lemma carol_registered:
  "auth_register sample_env 0 ''salt'' carol_body [] = (auth_response 201 carol ''1..11111.k1'', [carol])"
  by (simp add: auth_register_def validateRegister_def joi_get_def unknown_key_def carol_body_def
      registration_body_def sample_env_def
      register_def findByEmail_def new_id_def hasher_hash_def the_string_def the_role_def
      role_or_default_def token_issue_def sample_lib_simps sample_encode_def unary_samples Let_def carol_def)

theorem stored_roles_are_enumerated_witness:
  "reachable (is_email sample_env) (snd (router_patch_id_role (GoodId 1) [(''role'', VStr ''admin'')] [carol]))
   \<and> roles_ok (snd (router_patch_id_role (GoodId 1) [(''role'', VStr ''admin'')] [carol]))
   \<and> map_of carol_body ''role'' = None
   \<and> role carol = role_or_default (the_role (map_of carol_body ''role''))
   \<and> role carol = ''user''"
proof -
  let ?us = "snd (router_patch_id_role (GoodId 1) [(''role'', VStr ''admin'')] [carol])"
  note T = stored_roles_are_enumerated[where em = "is_email sample_env" and b = carol_body]
  have n: "map_of carol_body ''role'' = None" by (simp add: carol_body_def registration_body_def)
  from T n have d: "role_or_default (the_role (map_of carol_body ''role'')) = ''user''"
    by blast
  then have c: "role carol = role_or_default (the_role (map_of carol_body ''role''))"
    by (simp add: carol_def)
  have "reachable (is_email sample_env) ([] @ [carol])"
    by (rule reachable.registration[OF reachable.start carol_valid c])
  then have r: "reachable (is_email sample_env) ?us"
    by (simp add: reachable.role_update)
  from T[where us = ?us] r have k: "roles_ok ?us" by blast
  from r k n c d show ?thesis by simp
qed

section \<open>The authentication gate\<close>

lemma protect_absent: "protect E now None us = Inl NoHeader"
  by (simp add: protect_def)

lemma protect_malformed: "bearer_token a = None \<Longrightarrow> protect E now (Some a) us = Inl MalformedHeader"
  by (simp add: protect_def)

lemma protect_bad_token:
  "bearer_token a = Some tok \<Longrightarrow> token_verify (lib E) (secret E) now tok = Inl e \<Longrightarrow>
   protect E now (Some a) us = Inl (BadToken e)"
  by (simp add: protect_def)

lemma protect_stale:
  "bearer_token a = Some tok \<Longrightarrow> token_verify (lib E) (secret E) now tok = Inr i \<Longrightarrow>
   findById i us = None \<Longrightarrow> protect E now (Some a) us = Inl StalePrincipal"
  by (simp add: protect_def)

lemma protect_passes:
  "protect E now h us = Inr u \<longleftrightarrow>
     (\<exists>a tok i. h = Some a \<and> bearer_token a = Some tok
        \<and> token_verify (lib E) (secret E) now tok = Inr i \<and> findById i us = Some u)"
  by (auto simp: protect_def split: option.splits sum.splits)

lemma protected_refuses: "protect E now h us = Inl why \<Longrightarrow> protected E now h us handler = refusal Unauthenticated"
  by (simp add: protected_def)

lemma protected_runs: "protect E now h us = Inr u \<Longrightarrow> protected E now h us handler = handler u"
  by (simp add: protected_def)

lemma token_verify_cases:
  "token_verify L key now tok = Inl e \<longleftrightarrow>
     (decode L tok = None \<and> e = TokenMalformed)
   \<or> (\<exists>c sg. decode L tok = Some (c, sg) \<and> sg \<noteq> sign L key c \<and> e = TokenSignatureInvalid)
   \<or> (\<exists>c. decode L tok = Some (c, sign L key c) \<and> exp c < now \<and> e = TokenExpired)"
  by (auto simp: token_verify_def split: option.splits)

text \<open>
  C2. The gate fails, and the protected route answers 401 \<open>Unauthenticated\<close> without
  running its handler, when the header is absent, when it is not \<open>Bearer <token>\<close>,
  when the token does not verify (it does not decode, its signature is not the
  secret's, or it has expired), and when the token verifies but no principal has the
  id of its subject. The gate passes exactly when every check succeeds; the handler
  then runs with the principal that the id of the subject resolves to.
\<close>

theorem gate_rejects_or_attaches:
  "protected E now None us handler = refusal Unauthenticated
   \<and> (bearer_token a = None \<longrightarrow> protected E now (Some a) us handler = refusal Unauthenticated)
   \<and> (bearer_token a = Some tok \<and> token_verify (lib E) (secret E) now tok = Inl e \<longrightarrow>
        protected E now (Some a) us handler = refusal Unauthenticated)
   \<and> (decode (lib E) tok = None \<longrightarrow> token_verify (lib E) (secret E) now tok = Inl TokenMalformed)
   \<and> (decode (lib E) tok = Some (c, sg) \<and> sg \<noteq> sign (lib E) (secret E) c \<longrightarrow>
        token_verify (lib E) (secret E) now tok = Inl TokenSignatureInvalid)
   \<and> (decode (lib E) tok = Some (c, sign (lib E) (secret E) c) \<and> exp c < now \<longrightarrow>
        token_verify (lib E) (secret E) now tok = Inl TokenExpired)
   \<and> (bearer_token a = Some tok \<and> token_verify (lib E) (secret E) now tok = Inr i
        \<and> findById i us = None \<longrightarrow>
        protected E now (Some a) us handler = refusal Unauthenticated)
   \<and> (bearer_token a = Some tok \<and> token_verify (lib E) (secret E) now tok = Inr i
        \<and> findById i us = Some u \<longrightarrow>
        protect E now (Some a) us = Inr u \<and> protected E now (Some a) us handler = handler u)
   \<and> (protect E now h us = Inr u \<longrightarrow>
        (\<exists>a tok i. h = Some a \<and> bearer_token a = Some tok
           \<and> token_verify (lib E) (secret E) now tok = Inr i \<and> findById i us = Some u))
   \<and> http_status (refusal Unauthenticated) = 401"
proof (intro conjI impI)
  show "protected E now None us handler = refusal Unauthenticated"
    by (simp add: protected_refuses[OF protect_absent])
  show "protected E now (Some a) us handler = refusal Unauthenticated" if "bearer_token a = None"
    by (simp add: protected_refuses[OF protect_malformed[OF that]])
  show "protected E now (Some a) us handler = refusal Unauthenticated"
    if "bearer_token a = Some tok \<and> token_verify (lib E) (secret E) now tok = Inl e"
    using that by (simp add: protected_def protect_def)
  show "token_verify (lib E) (secret E) now tok = Inl TokenMalformed" if "decode (lib E) tok = None"
    using that by (simp add: token_verify_def)
  show "token_verify (lib E) (secret E) now tok = Inl TokenSignatureInvalid"
    if "decode (lib E) tok = Some (c, sg) \<and> sg \<noteq> sign (lib E) (secret E) c"
    using that by (simp add: token_verify_def)
  show "token_verify (lib E) (secret E) now tok = Inl TokenExpired"
    if "decode (lib E) tok = Some (c, sign (lib E) (secret E) c) \<and> exp c < now"
    using that by (simp add: token_verify_def)
  show "protected E now (Some a) us handler = refusal Unauthenticated"
    if "bearer_token a = Some tok \<and> token_verify (lib E) (secret E) now tok = Inr i \<and> findById i us = None"
    using that by (simp add: protected_def protect_def)
  show "protect E now (Some a) us = Inr u"
    if "bearer_token a = Some tok \<and> token_verify (lib E) (secret E) now tok = Inr i \<and> findById i us = Some u"
    using that by (simp add: protect_def)
  show "protected E now (Some a) us handler = handler u"
    if "bearer_token a = Some tok \<and> token_verify (lib E) (secret E) now tok = Inr i \<and> findById i us = Some u"
    using that by (simp add: protected_def protect_def)
  show "\<exists>a tok i. h = Some a \<and> bearer_token a = Some tok
           \<and> token_verify (lib E) (secret E) now tok = Inr i \<and> findById i us = Some u"
    if "protect E now h us = Inr u"
    using that by (simp add: protect_passes)
  show "http_status (refusal Unauthenticated) = 401"
    by (simp add: refusal_def refusal_status_def)
qed

lemma sample_headers:
  "bearer_token ''Basic abc'' = None"
  "bearer_token ''Bearer garbage'' = Some ''garbage''"
  "bearer_token ''Bearer 1..1111111.k1'' = Some ''1..1111111.k1''"
  "bearer_token ''Bearer 11111..1111111.k11111'' = Some ''11111..1111111.k11111''"
  by (simp_all add: bearer_token_def)

lemma sample_tokens:
  "sample_decode ''garbage'' = None"
  "sample_decode ''1..1111111.k1'' = Some (\<lparr>sub = 1, iat = 0, exp = 7\<rparr>, ''k1'')"
  "sample_decode ''1..1111111.j1'' = Some (\<lparr>sub = 1, iat = 0, exp = 7\<rparr>, ''j1'')"
  "sample_decode ''11111..1111111.k11111'' = Some (\<lparr>sub = 5, iat = 0, exp = 7\<rparr>, ''k11111'')"
  by (simp_all add: sample_decode_def)

lemma sample_signatures: "sign sample_lib k c = k @ unary (sub c)"
  by (rule sample_lib_simps)

lemma sample_settings:
  "lib sample_env = sample_lib" "secret sample_env = ''k''" "decode sample_lib = sample_decode"
  by (simp_all add: sample_env_def sample_lib_simps)

lemma sample_verified:
  "token_verify sample_lib ''k'' 3 ''garbage'' = Inl TokenMalformed"
  "token_verify sample_lib ''k'' 3 ''1..1111111.j1'' = Inl TokenSignatureInvalid"
  "token_verify sample_lib ''k'' 8 ''1..1111111.k1'' = Inl TokenExpired"
  "token_verify sample_lib ''k'' 3 ''1..1111111.k1'' = Inr 1"
  "token_verify sample_lib ''k'' 3 ''11111..1111111.k11111'' = Inr 5"
  by (simp_all add: token_verify_def sample_settings sample_tokens sample_signatures unary_samples)

lemma sample_principals:
  "findById 1 people = Some ann" "findById 5 people = None"
  by (simp_all add: findById_def people_def ann_def bob_def root_def)

theorem gate_rejects_or_attaches_witness:
  "protected sample_env 3 None people auth_me = refusal Unauthenticated
   \<and> protected sample_env 3 (Some ''Basic abc'') people auth_me = refusal Unauthenticated
   \<and> protected sample_env 3 (Some ''Bearer garbage'') people auth_me = refusal Unauthenticated
   \<and> token_verify sample_lib ''k'' 3 ''1..1111111.j1'' = Inl TokenSignatureInvalid
   \<and> token_verify sample_lib ''k'' 8 ''1..1111111.k1'' = Inl TokenExpired
   \<and> protected sample_env 3 (Some ''Bearer 11111..1111111.k11111'') people auth_me = refusal Unauthenticated
   \<and> protected sample_env 3 (Some ''Bearer 1..1111111.k1'') people auth_me = auth_me ann"
proof -
  note G = gate_rejects_or_attaches[where E = sample_env and us = people and handler = auth_me,
      unfolded sample_settings]
  have 1: "protected sample_env 3 None people auth_me = refusal Unauthenticated"
    using G[where now = 3] by blast
  have 2: "protected sample_env 3 (Some ''Basic abc'') people auth_me = refusal Unauthenticated"
    using G[where now = 3 and a = "''Basic abc''"] sample_headers(1) by blast
  have 3: "protected sample_env 3 (Some ''Bearer garbage'') people auth_me = refusal Unauthenticated"
    using G[where now = 3 and a = "''Bearer garbage''" and tok = "''garbage''" and e = TokenMalformed]
      sample_headers(2) sample_verified(1) by blast
  have 4: "token_verify sample_lib ''k'' 3 ''1..1111111.j1'' = Inl TokenSignatureInvalid"
    using G[where now = 3 and tok = "''1..1111111.j1''" and c = "\<lparr>sub = 1, iat = 0, exp = 7\<rparr>" and sg = "''j1''"]
      sample_tokens(3) by (simp add: sample_signatures unary_samples)
  have 5: "token_verify sample_lib ''k'' 8 ''1..1111111.k1'' = Inl TokenExpired"
    using G[where now = 8 and tok = "''1..1111111.k1''" and c = "\<lparr>sub = 1, iat = 0, exp = 7\<rparr>"]
      sample_tokens(2) by (simp add: sample_signatures unary_samples)
  have 6: "protected sample_env 3 (Some ''Bearer 11111..1111111.k11111'') people auth_me = refusal Unauthenticated"
    using G[where now = 3 and a = "''Bearer 11111..1111111.k11111''" and tok = "''11111..1111111.k11111''" and i = 5]
      sample_headers(4) sample_verified(5) sample_principals(2) by blast
  have 7: "protected sample_env 3 (Some ''Bearer 1..1111111.k1'') people auth_me = auth_me ann"
    using G[where now = 3 and a = "''Bearer 1..1111111.k1''" and tok = "''1..1111111.k1''" and i = 1 and u = ann]
      sample_headers(3) sample_verified(4) sample_principals(1) by blast
  from 1 2 3 4 5 6 7 show ?thesis by (intro conjI)
qed

section \<open>Registration and login\<close>

lemma findByEmail_some_iff:
  "findByEmail e us \<noteq> None \<longleftrightarrow> (\<exists>v\<in>set us. lower (email v) = lower e)"
  by (auto simp: findByEmail_def find_none_iff)

lemma register_duplicate:
  "\<exists>v\<in>set us. lower (email v) = lower e \<Longrightarrow> register kd s n e p r us = Inl DuplicateIdentity"
  using findByEmail_some_iff[of e us] by (simp add: register_def)

lemma auth_register_duplicate:
  assumes "\<exists>v\<in>set us. lower (email v) = lower (the_string (map_of b ''email''))"
  shows "snd (auth_register E now s b us) = us
       \<and> (http_status (fst (auth_register E now s b us)) = 400
          \<or> http_status (fst (auth_register E now s b us)) = 409)
       \<and> (validateRegister (is_email E) b = None \<longrightarrow>
            fst (auth_register E now s b us) = refusal DuplicateIdentity)"
proof (cases "validateRegister (is_email E) b")
  case None
  then show ?thesis
    by (simp add: auth_register_def register_duplicate[OF assms] refusal_def refusal_status_def)
next
  case (Some r)
  then obtain e where "r = bad_request e" by (auto simp: validateRegister_def)
  with Some show ?thesis by (simp add: auth_register_def bad_request_def)
qed

text \<open>
  C6. After a registration with the email \<open>e\<close> has succeeded, and in every later store
  that still holds a principal with that email, a registration with \<open>e\<close>, or with an
  email that differs from \<open>e\<close> only in the case of letters (\<open>lower\<close> makes the two
  equal), fails with \<open>DuplicateIdentity\<close>. At the HTTP boundary the answer is 409, or
  the 400 of a body that \<open>validateRegister\<close> rejects, and the store is unchanged.
\<close>

theorem second_registration_is_duplicate:
  assumes "register kd s n e p r us = Inr (u, us1)"
    and "lower e' = lower e"
    and "\<exists>v\<in>set us2. email v = e"
    and "the_string (map_of b ''email'') = e'"
  shows "register kd' s' n' e' p' r' us1 = Inl DuplicateIdentity
       \<and> register kd' s' n' e' p' r' us2 = Inl DuplicateIdentity
       \<and> snd (auth_register E now s' b us1) = us1
       \<and> (http_status (fst (auth_register E now s' b us1)) = 400
          \<or> http_status (fst (auth_register E now s' b us1)) = 409)
       \<and> (validateRegister (is_email E) b = None \<longrightarrow>
            auth_register E now s' b us1 = (refusal DuplicateIdentity, us1)
          \<and> http_status (refusal DuplicateIdentity) = 409)"
proof -
  from register_result[OF assms(1)] have "us1 = us @ [u]" "email u = e" by simp_all
  with assms(2) have d1: "\<exists>v\<in>set us1. lower (email v) = lower e'" by simp
  from assms(2,3) have d2: "\<exists>v\<in>set us2. lower (email v) = lower e'" by auto
  from d1 assms(4) have d3: "\<exists>v\<in>set us1. lower (email v) = lower (the_string (map_of b ''email''))"
    by simp
  note a = auth_register_duplicate[OF d3, of E now s']
  have "validateRegister (is_email E) b = None \<longrightarrow>
            auth_register E now s' b us1 = (refusal DuplicateIdentity, us1)
          \<and> http_status (refusal DuplicateIdentity) = 409"
    using a by (simp add: prod_eq_iff refusal_def refusal_status_def)
  with a register_duplicate[OF d1] register_duplicate[OF d2] show ?thesis by simp
qed

lemma lower_samples:
  "lower ''CAROL@X.COM'' = lower ''Carol@x.com''"
  "lower emile_capitals = lower emile_email"
  "lower ''carol@X.com'' = lower ''Carol@x.com''"
  "lower ''Carol@x.com'' \<noteq> lower ''dave@x.com''"
  by (simp_all add: lower_def lower_char_def capitals_def smalls_def emile_capitals_def emile_email_def)

lemma carol_store:
  "register (kdf sample_env) ''salt'' ''Carol'' ''Carol@x.com'' ''secret1'' None [] =
     Inr (\<lparr>user_id = 1, name = ''Carol'', email = ''Carol@x.com'',
           password = Digest ''salt'' ''saltsecret1'', role = ''user''\<rparr>,
          [\<lparr>user_id = 1, name = ''Carol'', email = ''Carol@x.com'',
            password = Digest ''salt'' ''saltsecret1'', role = ''user''\<rparr>])"
  by (simp add: register_def findByEmail_def new_id_def hasher_hash_def sample_env_def role_or_default_def Let_def)

lemma shout_valid: "validateRegister (is_email sample_env) shout_body = None"
  by (simp add: validateRegister_def joi_get_def unknown_key_def shout_body_def registration_body_def
      sample_env_def)

lemma emile_store:
  "register (kdf sample_env) ''salt'' ''Emile'' emile_email ''secret1'' None [] = Inr (emile, [emile])"
  by (simp add: register_def findByEmail_def new_id_def hasher_hash_def sample_env_def role_or_default_def
      Let_def emile_def)

theorem second_registration_is_duplicate_witness:
  "register (kdf sample_env) ''pepper'' ''Carol II'' ''CAROL@X.COM'' ''another1'' (Some ''admin'') [carol]
     = Inl DuplicateIdentity
   \<and> auth_register sample_env 4 ''pepper'' shout_body [carol] = (refusal DuplicateIdentity, [carol])
   \<and> http_status (refusal DuplicateIdentity) = 409
   \<and> register (kdf sample_env) ''pepper'' ''Emile II'' emile_capitals ''another1'' None [emile]
     = Inl DuplicateIdentity"
proof -
  have 1: "register (kdf sample_env) ''salt'' ''Carol'' ''Carol@x.com'' ''secret1'' None [] = Inr (carol, [carol])"
    by (simp add: carol_store carol_def)
  have 3: "\<exists>v\<in>set [carol]. email v = ''Carol@x.com''" by (simp add: carol_def)
  have 4: "the_string (map_of shout_body ''email'') = ''CAROL@X.COM''"
    by (simp add: shout_body_def registration_body_def the_string_def)
  have 5: "\<exists>v\<in>set [emile]. email v = emile_email" by (simp add: emile_def)
  have 6: "the_string (map_of (registration_body ''Emile II'' emile_capitals ''another1'' None) ''email'')
             = emile_capitals"
    by (simp add: registration_body_def the_string_def)
  from second_registration_is_duplicate[OF 1 lower_samples(1) 3 4,
      of "kdf sample_env" "''pepper''" "''Carol II''" "''another1''" "Some ''admin''" sample_env 4]
    shout_valid
  have c: "register (kdf sample_env) ''pepper'' ''Carol II'' ''CAROL@X.COM'' ''another1'' (Some ''admin'') [carol]
             = Inl DuplicateIdentity
           \<and> auth_register sample_env 4 ''pepper'' shout_body [carol] = (refusal DuplicateIdentity, [carol])
           \<and> http_status (refusal DuplicateIdentity) = 409"
    by simp
  from second_registration_is_duplicate[OF emile_store lower_samples(2) 5 6,
      of "kdf sample_env" "''pepper''" "''Emile II''" "''another1''" None sample_env 4]
  have e: "register (kdf sample_env) ''pepper'' ''Emile II'' emile_capitals ''another1'' None [emile]
             = Inl DuplicateIdentity"
    by simp
  from c e show ?thesis by simp
qed

lemma joi_email_none:
  "joi_email em k v = None \<Longrightarrow> \<exists>s. v = Some (VStr s) \<and> s \<noteq> [] \<and> em s"
  by (cases "(em, k, v)" rule: joi_email.cases) (auto split: if_splits)

lemma joi_string_required_none:
  "joi_string k lo hi True v = None \<Longrightarrow> \<exists>s. v = Some (VStr s) \<and> s \<noteq> []"
  by (cases "(k, lo, hi, True, v)" rule: joi_string.cases) (auto split: if_splits)

lemma validated_credentials:
  assumes "validateRegister em (registration_body n e p r) = None"
  shows "e \<noteq> [] \<and> em e \<and> p \<noteq> []"
proof -
  from assms have "joi_email em ''email'' (joi_get (registration_body n e p r) ''email'') = None"
    and "joi_string ''password'' (Some 6) None True (joi_get (registration_body n e p r) ''password'') = None"
    by (simp_all add: validateRegister_def first_error_none)
  then have "joi_email em ''email'' (Some (VStr e)) = None"
    and "joi_string ''password'' (Some 6) None True (Some (VStr p)) = None"
    by (simp_all add: joi_get_def registration_body_def)
  from joi_email_none[OF this(1)] joi_string_required_none[OF this(2)] show ?thesis by simp
qed

lemma login_body_valid:
  "e \<noteq> [] \<Longrightarrow> em e \<Longrightarrow> p \<noteq> [] \<Longrightarrow> validateLogin em (login_body e p) = None"
  by (simp add: validateLogin_def joi_get_def unknown_key_def login_body_def)

lemma body_strings:
  "the_string (map_of (registration_body n e p r) ''name'') = n"
  "the_string (map_of (registration_body n e p r) ''email'') = e"
  "the_string (map_of (registration_body n e p r) ''password'') = p"
  "the_role (map_of (registration_body n e p r) ''role'') = r"
  "the_string (map_of (login_body e p) ''email'') = e"
  "the_string (map_of (login_body e p) ''password'') = p"
  by (simp_all add: registration_body_def login_body_def the_string_def the_role_def split: option.split)

lemma hasher_round_trip: "hasher_verify kd p (hasher_hash kd s p)"
  by (simp add: hasher_verify_def hasher_hash_def)

lemma find_last:
  "find P xs = None \<Longrightarrow> P x \<Longrightarrow> find P (xs @ [x]) = Some x"
  by (induction xs) (auto split: if_splits)

lemma findByEmail_new:
  "findByEmail e us = None \<Longrightarrow> email u = e \<Longrightarrow> findByEmail e (us @ [u]) = Some u"
  by (simp add: findByEmail_def find_last)

lemma token_lib_reads: "decode L (encode L c sg) = Some (c, sg)"
  using Rep_token_lib[of L] by (simp add: decode.rep_eq encode.rep_eq)

lemma issued_token_verifies:
  "t \<le> now + life \<Longrightarrow> token_verify L key t (token_issue L key now i life) = Inr i"
  by (simp add: token_verify_def token_issue_def token_lib_reads Let_def)

lemma login_success:
  "validateLogin (is_email E) b = None \<Longrightarrow>
   findByEmail (the_string (map_of b ''email'')) us = Some u \<Longrightarrow>
   hasher_verify (kdf E) (the_string (map_of b ''password'')) (password u) \<Longrightarrow>
   auth_login E now b us = auth_response 200 u (token_issue (lib E) (secret E) now (user_id u) (ttl E))"
  by (simp add: auth_login_def)

text \<open>
  C3. For every registration input (name, email, password, with a role or without) that
  \<open>validateRegister\<close> accepts and whose email is not registered yet, the registration
  succeeds with 201 and stores one principal; the login with the same email and
  password on the new store succeeds with 200; and the token of the login verifies to
  the id of the principal that the registration created, at the time of the login and
  at every time up to the expiry of the token.
\<close>

theorem register_then_login:
  assumes "validateRegister (is_email E) (registration_body n e p r) = None"
    and "findByEmail e us = None"
  shows "\<exists>u. auth_register E t0 s (registration_body n e p r) us
               = (auth_response 201 u (token_issue (lib E) (secret E) t0 (user_id u) (ttl E)), us @ [u])
           \<and> auth_login E t1 (login_body e p) (us @ [u])
               = auth_response 200 u (token_issue (lib E) (secret E) t1 (user_id u) (ttl E))
           \<and> token_verify (lib E) (secret E) t1 (token_issue (lib E) (secret E) t1 (user_id u) (ttl E))
               = Inr (user_id u)
           \<and> (\<forall>t. t \<le> t1 + ttl E \<longrightarrow>
                  token_verify (lib E) (secret E) t (token_issue (lib E) (secret E) t1 (user_id u) (ttl E))
                    = Inr (user_id u))"
proof -
  from validated_credentials[OF assms(1)] have e: "e \<noteq> []" "is_email E e" and p: "p \<noteq> []"
    by simp_all
  let ?u = "\<lparr>user_id = new_id (map user_id us), name = n, email = e,
             password = hasher_hash (kdf E) s p, role = role_or_default r\<rparr>"
  have reg: "register (kdf E) s n e p r us = Inr (?u, us @ [?u])"
    using assms(2) by (simp add: register_def Let_def)
  have 1: "auth_register E t0 s (registration_body n e p r) us
             = (auth_response 201 ?u (token_issue (lib E) (secret E) t0 (user_id ?u) (ttl E)), us @ [?u])"
    using assms(1) reg by (simp add: auth_register_def body_strings)
  have found: "findByEmail e (us @ [?u]) = Some ?u"
    by (rule findByEmail_new[OF assms(2)]) simp
  have pw: "hasher_verify (kdf E) p (password ?u)"
    by (simp add: hasher_round_trip)
  have lv: "validateLogin (is_email E) (login_body e p) = None"
    using e p by (simp add: login_body_valid)
  have 2: "auth_login E t1 (login_body e p) (us @ [?u])
             = auth_response 200 ?u (token_issue (lib E) (secret E) t1 (user_id ?u) (ttl E))"
  proof (rule login_success[OF lv])
    show "findByEmail (the_string (map_of (login_body e p) ''email'')) (us @ [?u]) = Some ?u"
      using found by (simp only: body_strings)
    show "hasher_verify (kdf E) (the_string (map_of (login_body e p) ''password'')) (password ?u)"
      using pw by (simp only: body_strings)
  qed
  have 3: "token_verify (lib E) (secret E) t (token_issue (lib E) (secret E) t1 (user_id ?u) (ttl E))
             = Inr (user_id ?u)" if "t \<le> t1 + ttl E" for t
    using that by (rule issued_token_verifies)
  have 4: "token_verify (lib E) (secret E) t1 (token_issue (lib E) (secret E) t1 (user_id ?u) (ttl E))
             = Inr (user_id ?u)"
    by (rule 3) simp
  from 1 2 3 4 show ?thesis by (intro exI[of _ ?u] conjI allI impI)
qed

lemma sample_issue:
  "token_issue (lib sample_env) (secret sample_env) 2 (user_id carol) (ttl sample_env) = ''1.11.1111111.k1''"
  by (simp add: token_issue_def sample_settings sample_env_def sample_lib_simps sample_encode_def
      unary_samples carol_def Let_def)

theorem register_then_login_witness:
  "auth_register sample_env 0 ''salt'' carol_body [] = (auth_response 201 carol ''1..11111.k1'', [carol])
   \<and> auth_login sample_env 2 (login_body ''Carol@x.com'' ''secret1'') [carol]
        = auth_response 200 carol ''1.11.1111111.k1''
   \<and> token_verify (lib sample_env) (secret sample_env) 2 ''1.11.1111111.k1'' = Inr (user_id carol)
   \<and> token_verify (lib sample_env) (secret sample_env) 7 ''1.11.1111111.k1'' = Inr (user_id carol)"
proof -
  have v: "validateRegister (is_email sample_env) (registration_body ''Carol'' ''Carol@x.com'' ''secret1'' None) = None"
    using carol_valid by (simp add: carol_body_def)
  have f: "findByEmail ''Carol@x.com'' [] = None"
    by (simp add: findByEmail_def)
  have t: "(7::nat) \<le> 2 + ttl sample_env" by (simp add: sample_env_def)
  have r: "auth_register sample_env 0 ''salt'' carol_body [] = (auth_response 201 carol ''1..11111.k1'', [carol])"
    by (simp add: carol_registered carol_def)
  from register_then_login[OF v f, of 0 "''salt''" 2] obtain u where
    1: "auth_register sample_env 0 ''salt'' (registration_body ''Carol'' ''Carol@x.com'' ''secret1'' None) []
          = (auth_response 201 u (token_issue (lib sample_env) (secret sample_env) 0 (user_id u) (ttl sample_env)), [] @ [u])"
    and 2: "auth_login sample_env 2 (login_body ''Carol@x.com'' ''secret1'') ([] @ [u])
          = auth_response 200 u (token_issue (lib sample_env) (secret sample_env) 2 (user_id u) (ttl sample_env))"
    and 3: "token_verify (lib sample_env) (secret sample_env) 2
              (token_issue (lib sample_env) (secret sample_env) 2 (user_id u) (ttl sample_env)) = Inr (user_id u)"
    and 4: "\<forall>t. t \<le> 2 + ttl sample_env \<longrightarrow>
              token_verify (lib sample_env) (secret sample_env) t
                (token_issue (lib sample_env) (secret sample_env) 2 (user_id u) (ttl sample_env)) = Inr (user_id u)"
    by blast
  from 1 r have u: "u = carol" by (simp add: carol_body_def)
  from 4 t have 5: "token_verify (lib sample_env) (secret sample_env) 7
                (token_issue (lib sample_env) (secret sample_env) 2 (user_id u) (ttl sample_env)) = Inr (user_id u)"
    by blast
  from 2 3 5 show ?thesis unfolding u sample_issue using r by simp
qed

lemma login_unknown:
  "validateLogin (is_email E) b = None \<Longrightarrow>
   findByEmail (the_string (map_of b ''email'')) us = None \<Longrightarrow>
   auth_login E now b us = refusal InvalidCredentials"
  by (simp add: auth_login_def)

lemma login_wrong:
  "validateLogin (is_email E) b = None \<Longrightarrow>
   findByEmail (the_string (map_of b ''email'')) us = Some u \<Longrightarrow>
   \<not> hasher_verify (kdf E) (the_string (map_of b ''password'')) (password u) \<Longrightarrow>
   auth_login E now b us = refusal InvalidCredentials"
  by (simp add: auth_login_def)

text \<open>
  C4. A login that fails because no principal has the email and a login that fails
  because the password does not verify get the same answer, whatever the two bodies,
  stores and times: 401 with the body of \<open>InvalidCredentials\<close>.
\<close>

theorem login_failures_are_identical:
  assumes "validateLogin (is_email E) b1 = None"
    and "findByEmail (the_string (map_of b1 ''email'')) us1 = None"
    and "validateLogin (is_email E) b2 = None"
    and "findByEmail (the_string (map_of b2 ''email'')) us2 = Some u"
    and "\<not> hasher_verify (kdf E) (the_string (map_of b2 ''password'')) (password u)"
  shows "auth_login E t1 b1 us1 = auth_login E t2 b2 us2
       \<and> auth_login E t1 b1 us1 = \<lparr>http_status = 401, body = Refused InvalidCredentials\<rparr>"
  using login_unknown[OF assms(1,2)] login_wrong[OF assms(3,4,5)]
  by (simp add: refusal_def refusal_status_def)

theorem login_failures_are_identical_witness:
  "auth_login sample_env 2 [(''email'', VStr ''dave@x.com''), (''password'', VStr ''secret1'')] [carol]
     = auth_login sample_env 3 [(''email'', VStr ''carol@X.com''), (''password'', VStr ''secret2'')] [carol]
   \<and> auth_login sample_env 2 [(''email'', VStr ''dave@x.com''), (''password'', VStr ''secret1'')] [carol]
     = \<lparr>http_status = 401, body = Refused InvalidCredentials\<rparr>"
proof -
  let ?b1 = "[(''email'', VStr ''dave@x.com''), (''password'', VStr ''secret1'')]"
  let ?b2 = "[(''email'', VStr ''carol@X.com''), (''password'', VStr ''secret2'')]"
  have 1: "validateLogin (is_email sample_env) ?b1 = None"
    using login_body_valid[of "''dave@x.com''" "is_email sample_env" "''secret1''"]
    by (simp add: login_body_def sample_env_def)
  have 2: "findByEmail (the_string (map_of ?b1 ''email'')) [carol] = None"
    by (simp add: findByEmail_def the_string_def carol_def lower_samples)
  have 3: "validateLogin (is_email sample_env) ?b2 = None"
    using login_body_valid[of "''carol@X.com''" "is_email sample_env" "''secret2''"]
    by (simp add: login_body_def sample_env_def)
  have 4: "findByEmail (the_string (map_of ?b2 ''email'')) [carol] = Some carol"
    by (simp add: findByEmail_def the_string_def carol_def lower_samples)
  have 5: "\<not> hasher_verify (kdf sample_env) (the_string (map_of ?b2 ''password'')) (password carol)"
    by (simp add: hasher_verify_def the_string_def carol_def sample_env_def)
  from login_failures_are_identical[OF 1 2 3 4 5, of 2 3] show ?thesis .
qed

section \<open>The ids of the tasks\<close>

lemma fold_max_ge: "a \<le> fold max ids (a::nat)"
  by (induction ids arbitrary: a) (auto intro: order_trans[OF max.cobounded2])

lemma fold_max_upper: "x \<in> set ids \<Longrightarrow> x \<le> fold max ids (a::nat)"
proof (induction ids arbitrary: a)
  case Nil
  then show ?case by simp
next
  case (Cons y ids)
  show ?case
  proof (cases "x = y")
    case True
    have "y \<le> max y a" by simp
    also have "\<dots> \<le> fold max ids (max y a)" by (rule fold_max_ge)
    finally show ?thesis using True by simp
  next
    case False
    with Cons.prems have "x \<in> set ids" by simp
    from Cons.IH[OF this] show ?thesis by simp
  qed
qed

lemma new_id_fresh: "new_id ids \<notin> set ids"
proof
  assume "new_id ids \<in> set ids"
  from fold_max_upper[OF this, of 0] show False by (simp add: new_id_def)
qed

text \<open>The ids of a collection stay distinct under the three routes that write.\<close>

lemma post_keeps_ids_distinct:
  assumes "distinct (map task_id ts)"
  shows "distinct (map task_id (snd (router_post dp u b ts us)))"
proof (cases "validateTask dp b")
  case (Some r)
  with assms show ?thesis by (simp add: router_post_def)
next
  case None
  show ?thesis
  proof (cases "Task_create dp (taskData u b) ts")
    case (Inl e)
    with None assms show ?thesis by (simp add: router_post_def post_handler_def)
  next
    case (Inr p)
    obtain t ts' where p: "p = (t, ts')" by (cases p)
    from Inr[unfolded p] have "ts' = ts @ [t]" and "task_id t = new_id (map task_id ts)"
      by (auto simp: Task_create_def and_then_def Let_def split: sum.splits)
    with assms new_id_fresh[of "map task_id ts"] None Inr p show ?thesis
      by (simp add: router_post_def post_handler_def)
  qed
qed

lemma map_update_first: "(\<And>x. g (f x) = g x) \<Longrightarrow> map g (snd (update_first P f xs)) = map g xs"
  by (induction xs) auto

lemma distinct_remove_first:
  assumes "distinct (map g xs)"
  shows "distinct (map g (snd (remove_first P xs)))"
  using remove_first_cases[of P xs]
proof
  assume "remove_first P xs = (None, xs)"
  with assms show ?thesis by simp
next
  assume "\<exists>pre x post. xs = pre @ x # post \<and> P x \<and> remove_first P xs = (Some x, pre @ post)"
  then obtain pre x post where "xs = pre @ x # post" "remove_first P xs = (Some x, pre @ post)"
    by blast
  with assms show ?thesis by simp
qed

lemma put_handler_store:
  "cast_update dp b = Inr up \<Longrightarrow>
   snd (put_handler dp u (GoodId i) b ts us)
     = snd (update_first (matches i (q_createdBy (task_query u (GoodId i)))) (apply_update up) ts)"
  by (auto simp: put_handler_good split: prod.splits option.splits)

lemma delete_store:
  "snd (router_delete_id u (GoodId i) ts)
     = snd (remove_first (matches i (q_createdBy (task_query u (GoodId i)))) ts)"
  by (auto simp: router_delete_id_def Task_findOneAndDelete_def task_query_simps split: prod.splits option.splits)

lemma put_keeps_ids_distinct:
  assumes "distinct (map task_id ts)"
  shows "distinct (map task_id (snd (router_put_id dp u pid b ts us)))"
proof -
  have "map task_id (snd (put_handler dp u pid b ts us)) = map task_id ts"
  proof (cases pid)
    case (BadId s)
    then show ?thesis by (simp add: put_handler_def Task_findOneAndUpdate_def task_query_simps)
  next
    case (GoodId i)
    show ?thesis
    proof (cases "cast_update dp b")
      case (Inl e)
      then show ?thesis by (simp add: GoodId put_handler_bad[OF Inl])
    next
      case (Inr up)
      have "map task_id (snd (update_first (matches i (q_createdBy (task_query u (GoodId i)))) (apply_update up) ts))
              = map task_id ts"
        by (rule map_update_first) (rule apply_update_id)
      then show ?thesis by (simp add: GoodId put_handler_store[OF Inr])
    qed
  qed
  with assms show ?thesis by (simp add: router_put_id_def split: option.splits)
qed

lemma delete_keeps_ids_distinct:
  assumes "distinct (map task_id ts)"
  shows "distinct (map task_id (snd (router_delete_id u pid ts)))"
proof (cases pid)
  case (BadId s)
  with assms show ?thesis by (simp add: router_delete_id_def Task_findOneAndDelete_def task_query_simps)
next
  case (GoodId i)
  from distinct_remove_first[OF assms, of "matches i (q_createdBy (task_query u (GoodId i)))"]
  show ?thesis by (simp add: GoodId delete_store)
qed

end
